theory Spec2Isabelle
  imports Complex_Main "HOL-Library.AList"
begin

section \<open>DopaLAN match registry and rate limiter (src/server.js)\<close>

text \<open>
  The server keeps two JavaScript \<open>Map\<close>s, \<open>matches\<close> and \<open>rateLimit\<close>, and answers
  each request in one uninterrupted handler run. The embedding below gives every handler
  as a function from the stores (and from what the handler reads from its surroundings:
  the request body, the clock readings of \<open>Date.now()\<close>, the identifier returned by
  \<open>crypto.randomUUID()\<close>) to the response and the new stores.

  Conventions of the model.
  \<^item> A JavaScript \<open>Map\<close> iterates in insertion order, \<open>set\<close> on a present key keeps the
    key's position, \<open>set\<close> on a new key appends. That is an association list with
    \<open>AList.update\<close>, \<open>AList.delete\<close> and \<open>map_of\<close>.
  \<^item> \<open>Date.now()\<close> returns whole milliseconds: an \<open>int\<close>. Each call of \<open>Date.now()\<close> in
    the source is a separate argument of the model, since two calls may read two values.
  \<^item> Values of the request body are JSON values; an absent property reads as
    \<open>undefined\<close>, which is \<open>None\<close>. Strings are sequences of code units below 256.
  \<^item> A number is a double, given by its exact value. What the JavaScript runtime does
    with numbers and is not computed here (printing a number other than an integer of
    magnitude below \<open>2^53\<close>, rounding an integer of magnitude \<open>2^53\<close> or more to a
    double) is a parameter \<open>rt\<close> of the model: every statement holds for whatever the
    runtime does there.
  \<^item> Console output, the \<open>message\<close> text of the register response and \<open>process.uptime()\<close>
    are left out: no store depends on them.
\<close>

subsection \<open>JavaScript values\<close>

text \<open>
  A number: a finite double, given by its value (\<open>-0\<close> is not told from \<open>0\<close>: no handler
  could tell), an infinity or \<open>NaN\<close>. \<open>JSON.parse\<close> yields finite numbers and, for a
  literal beyond the range of the doubles, an infinity; it never yields \<open>NaN\<close>.
\<close>

datatype jsnum = Fin rat | PosInfinity | NegInfinity | NaN

datatype json =
    JNull
  | JBool bool
  | JNum jsnum
  | JStr string
  | JArr "json list"
  | JObj "(string \<times> json) list"

type_synonym jsval = "json option"

text \<open>
  The part of the runtime that is not computed here: \<open>Number::toString\<close> on a finite
  number that is not an integer of magnitude below \<open>2^53\<close>; the number that a string of
  digits of a radix denotes when its value is \<open>2^53\<close> or more; and the age in minutes
  that line 101 computes from the clock reading and \<open>createdAt\<close> when they are so far
  apart that the two divisions in doubles may round across a whole number.
\<close>

record runtime =
  rt_number_to_string :: "rat \<Rightarrow> string"
  rt_digits_to_number :: "nat \<Rightarrow> string \<Rightarrow> jsnum"
  rt_age :: "int \<Rightarrow> int \<Rightarrow> int"

datatype error = ValidationError | NotFoundError | RateLimitExceeded | TypeError

text \<open>\<open>ToBoolean\<close>: what \<open>!x\<close> negates.\<close>

fun truthy :: "jsval \<Rightarrow> bool" where
  "truthy None = False"
| "truthy (Some JNull) = False"
| "truthy (Some (JBool b)) = b"
| "truthy (Some (JNum (Fin q))) = (q \<noteq> 0)"
| "truthy (Some (JNum PosInfinity)) = True"
| "truthy (Some (JNum NegInfinity)) = True"
| "truthy (Some (JNum NaN)) = False"
| "truthy (Some (JStr s)) = (s \<noteq> [])"
| "truthy (Some (JArr xs)) = True"
| "truthy (Some (JObj kvs)) = True"

text \<open>
  White space as \<open>String.prototype.trim\<close> and \<open>parseInt\<close> strip it, among the code units
  below 256: TAB, LF, VT, FF, CR, SP and NBSP.
\<close>

definition is_whitespace :: "char \<Rightarrow> bool" where
  "is_whitespace c =
     (c = CHR 0x09 \<or> c = CHR 0x0A \<or> c = CHR 0x0B \<or> c = CHR 0x0C \<or> c = CHR 0x0D \<or>
      c = CHR 0x20 \<or> c = CHR 0xA0)"

definition trim_start :: "string \<Rightarrow> string" where
  "trim_start s = dropWhile is_whitespace s"

definition trim :: "string \<Rightarrow> string" where
  "trim s = rev (trim_start (rev (trim_start s)))"

subsubsection \<open>\<open>ToString\<close>\<close>

definition digit_char :: "nat \<Rightarrow> char" where
  "digit_char d =
     (if d = 0 then CHR ''0'' else if d = 1 then CHR ''1'' else if d = 2 then CHR ''2''
      else if d = 3 then CHR ''3'' else if d = 4 then CHR ''4'' else if d = 5 then CHR ''5''
      else if d = 6 then CHR ''6'' else if d = 7 then CHR ''7'' else if d = 8 then CHR ''8''
      else CHR ''9'')"

fun digits10 :: "nat \<Rightarrow> string" where
  "digits10 n = (if n < 10 then [digit_char n] else digits10 (n div 10) @ [digit_char (n mod 10)])"

declare digits10.simps [simp del]

definition int_to_string :: "int \<Rightarrow> string" where
  "int_to_string n = (if n < 0 then ''-'' @ digits10 (nat (- n)) else digits10 (nat n))"

text \<open>
  The integers for which the conversions are computed here: every integer of magnitude
  below \<open>2^53\<close> is a double, and \<open>Number::toString\<close> prints it in plain decimal notation.
\<close>

definition safe_integer :: "rat \<Rightarrow> bool" where
  "safe_integer q = (q = of_int \<lfloor>q\<rfloor> \<and> \<bar>q\<bar> < 9007199254740992)"

fun number_to_string :: "runtime \<Rightarrow> jsnum \<Rightarrow> string" where
  "number_to_string rt NaN = ''NaN''"
| "number_to_string rt PosInfinity = ''Infinity''"
| "number_to_string rt NegInfinity = ''-Infinity''"
| "number_to_string rt (Fin q) =
     (if safe_integer q then int_to_string \<lfloor>q\<rfloor> else rt_number_to_string rt q)"

fun join_comma :: "string list \<Rightarrow> string" where
  "join_comma [] = []"
| "join_comma [s] = s"
| "join_comma (s # t # ss) = s @ '','' @ join_comma (t # ss)"

text \<open>
  \<open>ToString\<close> of a JSON value. An array prints its elements separated by commas, with
  \<open>null\<close> elements printed as the empty string (\<open>Array.prototype.join\<close>); a plain object
  prints as \<open>[object Object]\<close>.

  The conversion of an object calls its \<open>toString\<close> method. An object parsed from JSON
  that has a property of its own named \<open>toString\<close> has no callable one (a JSON value is
  never a function), \<open>valueOf\<close> does not give a primitive either, and the conversion
  throws a \<open>TypeError\<close>; so does the conversion of an array with such an element.
  \<open>to_primitive_throws\<close> says when that happens, and \<open>to_string\<close> is the result when
  it does not.
\<close>

fun to_primitive_throws :: "json \<Rightarrow> bool" where
  "to_primitive_throws JNull = False"
| "to_primitive_throws (JBool b) = False"
| "to_primitive_throws (JNum n) = False"
| "to_primitive_throws (JStr s) = False"
| "to_primitive_throws (JArr xs) = (\<exists>x\<in>set xs. to_primitive_throws x)"
| "to_primitive_throws (JObj kvs) = (''toString'' \<in> fst ` set kvs)"

fun to_string :: "runtime \<Rightarrow> json \<Rightarrow> string" where
  "to_string rt JNull = ''null''"
| "to_string rt (JBool b) = (if b then ''true'' else ''false'')"
| "to_string rt (JNum x) = number_to_string rt x"
| "to_string rt (JStr s) = s"
| "to_string rt (JArr xs) = join_comma (map (\<lambda>x. if x = JNull then [] else to_string rt x) xs)"
| "to_string rt (JObj kvs) = ''[object Object]''"

subsubsection \<open>\<open>parseInt\<close> with no radix argument\<close>

text \<open>The value of a code unit as a digit: \<open>0\<close>-\<open>9\<close>, then letters from ten on.\<close>

definition digit_value :: "char \<Rightarrow> nat option" where
  "digit_value c =
     (let n = (of_char c :: nat) in
      if 48 \<le> n \<and> n \<le> 57 then Some (n - 48)
      else if 97 \<le> n \<and> n \<le> 122 then Some (n - 87)
      else if 65 \<le> n \<and> n \<le> 90 then Some (n - 55)
      else None)"

definition is_radix_digit :: "nat \<Rightarrow> char \<Rightarrow> bool" where
  "is_radix_digit R c = (case digit_value c of None \<Rightarrow> False | Some d \<Rightarrow> d < R)"

definition digits_value :: "nat \<Rightarrow> string \<Rightarrow> nat" where
  "digits_value R z = foldl (\<lambda>acc c. acc * R + (case digit_value c of None \<Rightarrow> 0 | Some d \<Rightarrow> d)) 0 z"

text \<open>
  The first steps of \<open>parseInt(string)\<close>: strip leading white space, read a sign, read a
  \<open>0x\<close>/\<open>0X\<close> prefix (radix 16, otherwise 10), take the longest run of digits of the
  radix. The result is whether the sign is \<open>-\<close>, the radix and the digits.
\<close>

definition parse_prefix :: "string \<Rightarrow> bool \<times> nat \<times> string" where
  "parse_prefix input =
     (let s = trim_start input;
          negative = (take 1 s = ''-'');
          s1 = (if take 1 s = ''+'' \<or> take 1 s = ''-'' then drop 1 s else s);
          hex = (take 2 s1 = ''0x'' \<or> take 2 s1 = ''0X'');
          R = (if hex then 16 else 10);
          s2 = (if hex then drop 2 s1 else s1)
      in (negative, R, takeWhile (is_radix_digit R) s2))"

text \<open>
  The number that the digits denote: their value when it is below \<open>2^53\<close>, and what the
  runtime makes of them otherwise (the nearest double, or an infinity).
\<close>

definition digits_to_number :: "runtime \<Rightarrow> nat \<Rightarrow> string \<Rightarrow> jsnum" where
  "digits_to_number rt R z =
     (if digits_value R z < 9007199254740992 then Fin (of_nat (digits_value R z))
      else rt_digits_to_number rt R z)"

fun negate :: "jsnum \<Rightarrow> jsnum" where
  "negate (Fin q) = Fin (- q)"
| "negate PosInfinity = NegInfinity"
| "negate NegInfinity = PosInfinity"
| "negate NaN = NaN"

text \<open>\<open>parseInt(string)\<close>: no digit gives \<open>NaN\<close>.\<close>

definition parseInt_string :: "runtime \<Rightarrow> string \<Rightarrow> jsnum" where
  "parseInt_string rt input =
     (case parse_prefix input of
        (negative, R, z) \<Rightarrow>
          if z = [] then NaN
          else if negative then negate (digits_to_number rt R z)
          else digits_to_number rt R z)"

text \<open>\<open>parseInt\<close> of a value whose conversion to a string does not throw.\<close>

definition parseInt :: "runtime \<Rightarrow> json \<Rightarrow> jsnum" where
  "parseInt rt v = parseInt_string rt (to_string rt v)"

subsection \<open>The data model\<close>

text \<open>
  The object literal of lines 52-62. \<open>id\<close> and \<open>map\<close> carry a prime, the plain names
  being HOL constants. \<open>maxPlayers\<close> holds whatever JSON value the body carried.
\<close>

record Match =
  id' :: string
  hostName :: string
  proxyAddress :: string
  proxyPort :: jsnum
  map' :: string
  maxPlayers :: json
  playersConnected :: int
  createdAt :: int
  lastHeartbeat :: int

text \<open>The \<open>matches\<close> map, keyed by id, in insertion order.\<close>

type_synonym registry = "(string \<times> Match) list"

text \<open>The object literal of lines 92-103: what \<open>list\<close> shows of a match.\<close>

record MatchView =
  v_id :: string
  v_hostName :: string
  v_proxyAddress :: string
  v_proxyPort :: jsnum
  v_proxyUrl :: string
  v_map :: string
  v_maxPlayers :: json
  v_playersConnected :: int
  v_age :: int
  v_isRecent :: bool

text \<open>The body of a register request, after the destructuring of line 43.\<close>

record RegisterBody =
  b_hostName :: jsval
  b_proxyAddress :: jsval
  b_proxyPort :: jsval
  b_map :: jsval
  b_maxPlayers :: jsval

record RegisterResponse =
  r_id :: string
  r_proxyUrl :: string

record ListResponse =
  l_matches :: "MatchView list"
  l_total :: nat
  l_timestamp :: int

record HealthResponse =
  h_matches :: nat
  h_active :: nat

record StatsResponse =
  totalMatchesEver :: nat
  activeMatches :: nat

subsection \<open>Rate limiting (lines 19-39)\<close>

text \<open>The \<open>rateLimit\<close> map: for each key the time stamps of its recent requests.\<close>

type_synonym rate_store = "(string \<times> int list) list"

definition rate_key :: "string \<Rightarrow> string \<Rightarrow> string" where
  "rate_key ip path = ip @ '':'' @ path"

text \<open>
  The middleware, for one request with key \<open>key\<close> at clock reading \<open>now\<close>. The answer is
  \<open>Inl RateLimitExceeded\<close> for the 429 response and \<open>Inr ()\<close> for \<open>next()\<close>.
\<close>

definition rate_limit :: "int \<Rightarrow> string \<Rightarrow> rate_store \<Rightarrow> (error + unit) \<times> rate_store" where
  "rate_limit now key rateLimit =
     (let rateLimit1 = (if map_of rateLimit key = None then AList.update key [] rateLimit
                        else rateLimit);
          requests = (case map_of rateLimit1 key of None \<Rightarrow> [] | Some r \<Rightarrow> r) @ [now];
          recent = filter (\<lambda>t. now - t < 60000) requests;
          rateLimit2 = AList.update key recent rateLimit1
      in if length recent > 15 then (Inl RateLimitExceeded, rateLimit2)
         else (Inr (), rateLimit2))"

text \<open>The stored history of a key; a key never seen has none.\<close>

definition history :: "rate_store \<Rightarrow> string \<Rightarrow> int list" where
  "history rateLimit key = (case map_of rateLimit key of None \<Rightarrow> [] | Some r \<Rightarrow> r)"

text \<open>
  A run of requests of one key at the clock readings \<open>ts\<close>, in order: the answers, and
  the store after the last one.
\<close>

fun rate_run :: "string \<Rightarrow> int list \<Rightarrow> rate_store \<Rightarrow> (error + unit) list \<times> rate_store" where
  "rate_run key [] rateLimit = ([], rateLimit)"
| "rate_run key (t # ts) rateLimit =
     (let (a, rateLimit1) = rate_limit t key rateLimit;
          (as, rateLimit2) = rate_run key ts rateLimit1
      in (a # as, rateLimit2))"

subsection \<open>Register (lines 42-72)\<close>

text \<open>
  One operand \<open>!x?.trim()\<close> of the check of line 45, for \<open>x\<close> one of \<open>hostName\<close>,
  \<open>proxyAddress\<close>, \<open>map\<close>. \<open>undefined\<close> and \<open>null\<close> stop the optional chain and are falsy;
  a string is trimmed and is falsy when nothing is left; any other JSON value has no
  callable \<open>trim\<close>, and the call throws a \<open>TypeError\<close>. A value that passes is returned
  untrimmed.
\<close>

fun text_field :: "jsval \<Rightarrow> error + string" where
  "text_field None = Inl ValidationError"
| "text_field (Some JNull) = Inl ValidationError"
| "text_field (Some (JStr s)) = (if trim s = [] then Inl ValidationError else Inr s)"
| "text_field (Some (JBool b)) = Inl TypeError"
| "text_field (Some (JNum n)) = Inl TypeError"
| "text_field (Some (JArr xs)) = Inl TypeError"
| "text_field (Some (JObj kvs)) = Inl TypeError"

text \<open>The operand \<open>!proxyPort\<close>: a truthiness test and nothing more.\<close>

fun port_field :: "jsval \<Rightarrow> error + json" where
  "port_field None = Inl ValidationError"
| "port_field (Some p) = (if truthy (Some p) then Inr p else Inl ValidationError)"

text \<open>
  Two readings of a text operand, used to state what the check does: the values on which
  \<open>x?.trim()\<close> does not throw, and among them those that the check rejects.
\<close>

fun nullish_or_string :: "jsval \<Rightarrow> bool" where
  "nullish_or_string None = True"
| "nullish_or_string (Some JNull) = True"
| "nullish_or_string (Some (JStr s)) = True"
| "nullish_or_string (Some (JBool b)) = False"
| "nullish_or_string (Some (JNum n)) = False"
| "nullish_or_string (Some (JArr xs)) = False"
| "nullish_or_string (Some (JObj kvs)) = False"

fun blank :: "jsval \<Rightarrow> bool" where
  "blank None = True"
| "blank (Some JNull) = True"
| "blank (Some (JStr s)) = (trim s = [])"
| "blank (Some (JBool b)) = False"
| "blank (Some (JNum n)) = False"
| "blank (Some (JArr xs)) = False"
| "blank (Some (JObj kvs)) = False"

text \<open>
  The check of line 45: the operands of \<open>||\<close> are evaluated from left to right and the
  first that throws or is truthy ends the check. A body that passes gives the four
  values as the body has them.

  The handler. \<open>uuid\<close> is what \<open>crypto.randomUUID()\<close> returns in this run, \<open>t_created\<close> and
  \<open>t_heartbeat\<close> are the readings of the two \<open>Date.now()\<close> calls of lines 60 and 61.
  After the check, \<open>parseInt(proxyPort)\<close> of line 56 converts the port to a string, which
  may throw; that happens before \<open>matches.set\<close>.
\<close>

definition check_fields :: "RegisterBody \<Rightarrow> error + string \<times> string \<times> json \<times> string" where
  "check_fields body =
     (case text_field (b_hostName body) of
        Inl e \<Rightarrow> Inl e
      | Inr h \<Rightarrow>
     (case text_field (b_proxyAddress body) of
        Inl e \<Rightarrow> Inl e
      | Inr a \<Rightarrow>
     (case port_field (b_proxyPort body) of
        Inl e \<Rightarrow> Inl e
      | Inr p \<Rightarrow>
     (case text_field (b_map body) of
        Inl e \<Rightarrow> Inl e
      | Inr m \<Rightarrow> Inr (h, a, p, m)))))"

definition register ::
  "runtime \<Rightarrow> string \<Rightarrow> int \<Rightarrow> int \<Rightarrow> RegisterBody \<Rightarrow> registry
     \<Rightarrow> (error + RegisterResponse) \<times> registry" where
  "register rt uuid t_created t_heartbeat body matches =
     (case check_fields body of
        Inl e \<Rightarrow> (Inl e, matches)
      | Inr (h, a, p, m) \<Rightarrow>
          if to_primitive_throws p then (Inl TypeError, matches) else
          (let match = \<lparr> id' = uuid,
                         hostName = trim h,
                         proxyAddress = trim a,
                         proxyPort = parseInt rt p,
                         map' = trim m,
                         maxPlayers = (case b_maxPlayers body of None \<Rightarrow> JNum (Fin 8) | Some v \<Rightarrow> v),
                         playersConnected = 0,
                         createdAt = t_created,
                         lastHeartbeat = t_heartbeat \<rparr>
           in (Inr \<lparr> r_id = uuid, r_proxyUrl = a @ '':'' @ to_string rt p \<rparr>,
               AList.update uuid match matches)))"

subsection \<open>Heartbeat (lines 75-85) and unregister (lines 115-125)\<close>

text \<open>
  The keys of \<open>matches\<close> are strings, so \<open>matches.get(id)\<close> and \<open>matches.delete(id)\<close> find
  an entry only when the \<open>id\<close> of the body is a string equal to a key.
\<close>

fun map_key :: "jsval \<Rightarrow> string option" where
  "map_key (Some (JStr k)) = Some k"
| "map_key _ = None"

definition map_get :: "registry \<Rightarrow> jsval \<Rightarrow> (string \<times> Match) option" where
  "map_get matches v =
     (case map_key v of
        None \<Rightarrow> None
      | Some k \<Rightarrow> (case map_of matches k of None \<Rightarrow> None | Some m \<Rightarrow> Some (k, m)))"

text \<open>The assignment of line 83 changes the stored object where it stands.\<close>

definition heartbeat :: "int \<Rightarrow> jsval \<Rightarrow> registry \<Rightarrow> (error + unit) \<times> registry" where
  "heartbeat now idv matches =
     (case map_get matches idv of
        None \<Rightarrow> (Inl NotFoundError, matches)
      | Some (k, match) \<Rightarrow> (Inr (), AList.update k (match\<lparr>lastHeartbeat := now\<rparr>) matches))"

definition unregister :: "jsval \<Rightarrow> registry \<Rightarrow> (error + unit) \<times> registry" where
  "unregister idv matches =
     (case map_get matches idv of
        None \<Rightarrow> (Inl NotFoundError, matches)
      | Some (k, match) \<Rightarrow> (Inr (), AList.delete k matches))"

subsection \<open>List (lines 88-112)\<close>

text \<open>
  \<open>Math.floor((now - m.createdAt) / 1000 / 60)\<close>. For a difference of magnitude below
  \<open>4 * 10^15\<close> ms the two roundings of the divisions move the quotient by less than
  \<open>1/60000\<close>, the distance of a quotient that is not whole from the next whole number,
  so the floor is the floor of the exact quotient.
\<close>

definition age :: "runtime \<Rightarrow> int \<Rightarrow> Match \<Rightarrow> int" where
  "age rt now m =
     (if \<bar>now - createdAt m\<bar> < 4000000000000000
      then \<lfloor>real_of_int (now - createdAt m) / 1000 / 60\<rfloor>
      else rt_age rt now (createdAt m))"

definition view :: "runtime \<Rightarrow> int \<Rightarrow> Match \<Rightarrow> MatchView" where
  "view rt now m =
     \<lparr> v_id = id' m,
       v_hostName = hostName m,
       v_proxyAddress = proxyAddress m,
       v_proxyPort = proxyPort m,
       v_proxyUrl = proxyAddress m @ '':'' @ number_to_string rt (proxyPort m),
       v_map = map' m,
       v_maxPlayers = maxPlayers m,
       v_playersConnected = playersConnected m,
       v_age = age rt now m,
       v_isRecent = (now - lastHeartbeat m < 30000) \<rparr>"

text \<open>
  The comparison function of line 104 is applied to the views. A view has no
  \<open>lastHeartbeat\<close> property (lines 92-103 do not copy it), so \<open>a.lastHeartbeat\<close> reads
  \<open>undefined\<close>.
\<close>

definition view_lastHeartbeat :: "MatchView \<Rightarrow> int option" where
  "view_lastHeartbeat a = None"

text \<open>
  The difference of two such reads, each a time stamp or \<open>undefined\<close>: \<open>ToNumber\<close> of
  \<open>undefined\<close> is \<open>NaN\<close>, and a difference with \<open>NaN\<close> is \<open>NaN\<close>.
\<close>

fun js_minus :: "int option \<Rightarrow> int option \<Rightarrow> jsnum" where
  "js_minus (Some x) (Some y) = Fin (of_int (x - y))"
| "js_minus _ _ = NaN"

definition compare_views :: "MatchView \<Rightarrow> MatchView \<Rightarrow> jsnum" where
  "compare_views a b = js_minus (view_lastHeartbeat b) (view_lastHeartbeat a)"

text \<open>
  \<open>Array.prototype.sort\<close> with a comparison function: a result \<open>NaN\<close> counts as \<open>0\<close>
  (\<open>SortCompare\<close>), and the sort is stable. A stable insertion sort stands for it:
  an element moves behind a later one only when the comparison is positive.
\<close>

definition sort_compare :: "('a \<Rightarrow> 'a \<Rightarrow> jsnum) \<Rightarrow> 'a \<Rightarrow> 'a \<Rightarrow> jsnum" where
  "sort_compare comparefn x y = (case comparefn x y of NaN \<Rightarrow> Fin 0 | v \<Rightarrow> v)"

fun positive :: "jsnum \<Rightarrow> bool" where
  "positive (Fin q) = (0 < q)"
| "positive PosInfinity = True"
| "positive NegInfinity = False"
| "positive NaN = False"

fun sort_insert :: "('a \<Rightarrow> 'a \<Rightarrow> jsnum) \<Rightarrow> 'a \<Rightarrow> 'a list \<Rightarrow> 'a list" where
  "sort_insert comparefn x [] = [x]"
| "sort_insert comparefn x (y # ys) =
     (if positive (sort_compare comparefn x y) then y # sort_insert comparefn x ys
      else x # y # ys)"

fun js_sort :: "('a \<Rightarrow> 'a \<Rightarrow> jsnum) \<Rightarrow> 'a list \<Rightarrow> 'a list" where
  "js_sort comparefn [] = []"
| "js_sort comparefn (x # xs) = sort_insert comparefn x (js_sort comparefn xs)"

definition active :: "int \<Rightarrow> Match \<Rightarrow> bool" where
  "active now m = (now - lastHeartbeat m < 120000)"

definition list_matches :: "runtime \<Rightarrow> int \<Rightarrow> registry \<Rightarrow> ListResponse \<times> registry" where
  "list_matches rt now matches =
     (let activeMatches =
            take 100
              (js_sort compare_views (map (view rt now) (filter (active now) (map snd matches))))
      in (\<lparr> l_matches = activeMatches, l_total = length activeMatches, l_timestamp = now \<rparr>,
          matches))"

subsection \<open>Health (lines 128-137) and stats (lines 140-149)\<close>

text \<open>
  The health handler calls \<open>Date.now()\<close> inside the filter, once for each stored match:
  \<open>clock i\<close> is the reading for the match at position \<open>i\<close>. The stats handler reads the
  clock once.
\<close>

definition health_active :: "(nat \<Rightarrow> int) \<Rightarrow> registry \<Rightarrow> Match list" where
  "health_active clock matches =
     map snd (filter (\<lambda>(i, m). clock i - lastHeartbeat m < 120000) (enumerate 0 (map snd matches)))"

definition health :: "(nat \<Rightarrow> int) \<Rightarrow> registry \<Rightarrow> HealthResponse \<times> registry" where
  "health clock matches =
     (\<lparr> h_matches = length matches, h_active = length (health_active clock matches) \<rparr>, matches)"

definition stats :: "int \<Rightarrow> registry \<Rightarrow> StatsResponse \<times> registry" where
  "stats now matches =
     (\<lparr> totalMatchesEver = length matches,
        activeMatches = length (filter (active now) (map snd matches)) \<rparr>, matches)"

subsection \<open>Runs of requests against the registry\<close>

text \<open>
  A request with everything its handler reads from outside the store: the generated
  identifier and the clock readings.
\<close>

datatype request =
    Register string int int RegisterBody
  | Heartbeat int jsval
  | ListMatches int
  | Unregister jsval
  | Health "nat \<Rightarrow> int"
  | Stats int

fun step :: "runtime \<Rightarrow> request \<Rightarrow> registry \<Rightarrow> registry" where
  "step rt (Register uuid t_created t_heartbeat body) matches =
     snd (register rt uuid t_created t_heartbeat body matches)"
| "step rt (Heartbeat now idv) matches = snd (heartbeat now idv matches)"
| "step rt (ListMatches now) matches = snd (list_matches rt now matches)"
| "step rt (Unregister idv) matches = snd (unregister idv matches)"
| "step rt (Health clock) matches = snd (health clock matches)"
| "step rt (Stats now) matches = snd (stats now matches)"

fun run :: "runtime \<Rightarrow> request list \<Rightarrow> registry \<Rightarrow> registry" where
  "run rt [] matches = matches"
| "run rt (r # rs) matches = run rt rs (step rt r matches)"

text \<open>The identifier a request brings into the store, if it is a register request.\<close>

fun generated_id :: "request \<Rightarrow> string option" where
  "generated_id (Register uuid t_created t_heartbeat body) = Some uuid"
| "generated_id _ = None"

text \<open>
  What every store built by the handlers satisfies: a key occurs once (it is a \<open>Map\<close>),
  and the match stored under a key carries that key as its \<open>id\<close>.
\<close>

definition ids_ok :: "registry \<Rightarrow> bool" where
  "ids_ok matches = (\<forall>(k, m) \<in> set matches. id' m = k)"

definition wf_registry :: "registry \<Rightarrow> bool" where
  "wf_registry matches = (distinct (map fst matches) \<and> ids_ok matches)"

subsection \<open>Example inputs\<close>

text \<open>The register call of the specification's example, and the match it stores.\<close>

definition example_body :: RegisterBody where
  "example_body =
     \<lparr> b_hostName = Some (JStr ''Alice''), b_proxyAddress = Some (JStr ''10.0.0.5''),
       b_proxyPort = Some (JNum (Fin 7777)), b_map = Some (JStr ''de_dust2''),
       b_maxPlayers = None \<rparr>"

definition example_match :: "string \<Rightarrow> int \<Rightarrow> int \<Rightarrow> Match" where
  "example_match uuid t_created t_heartbeat =
     \<lparr> id' = uuid, hostName = ''Alice'', proxyAddress = ''10.0.0.5'', proxyPort = Fin 7777,
       map' = ''de_dust2'', maxPlayers = JNum (Fin 8), playersConnected = 0,
       createdAt = t_created, lastHeartbeat = t_heartbeat \<rparr>"

text \<open>
  A value for the runtime parameter, for statements about concrete calls. The calls
  used below do not reach it: their numbers are integers of magnitude below \<open>2^53\<close> and
  their time stamps are close together, and the lemmas on which those statements rest
  are proved for every runtime.
\<close>

definition example_runtime :: runtime where
  "example_runtime =
     \<lparr> rt_number_to_string = (\<lambda>q. []), rt_digits_to_number = (\<lambda>R z. NaN),
       rt_age = (\<lambda>now created. 0) \<rparr>"

section \<open>Evaluation of the helpers\<close>

lemmas trim_eval = trim_def trim_start_def is_whitespace_def

lemmas number_eval = safe_integer_def int_to_string_def digits10.simps digit_char_def

lemmas parseInt_eval =
  parseInt_def parseInt_string_def parse_prefix_def digits_to_number_def trim_start_def
  is_whitespace_def is_radix_digit_def digit_value_def digits_value_def Let_def

lemma trim_examples:
  "trim ''Alice'' = ''Alice''" "trim ''10.0.0.5'' = ''10.0.0.5''"
  "trim ''de_dust2'' = ''de_dust2''"
  by (simp_all add: trim_eval)

lemma to_string_7777: "to_string rt (JNum (Fin 7777)) = ''7777''"
  by (simp add: number_eval)

lemma parseInt_7777: "parseInt rt (JNum (Fin 7777)) = Fin 7777"
  by (simp add: parseInt_eval number_eval)

lemma check_fields_example:
  "check_fields example_body = Inr (''Alice'', ''10.0.0.5'', JNum (Fin 7777), ''de_dust2'')"
  by (simp add: check_fields_def example_body_def trim_examples)

lemma register_example:
  "register rt uuid t1 t2 example_body matches =
     (Inr \<lparr> r_id = uuid, r_proxyUrl = ''10.0.0.5:7777'' \<rparr>,
      AList.update uuid (example_match uuid t1 t2) matches)"
  by (simp add: register_def check_fields_example example_match_def trim_examples parseInt_7777
      to_string_7777 del: to_string.simps) (simp add: example_body_def)

lemma floor_minutes: "\<lfloor>real_of_int d / 1000 / 60\<rfloor> = d div 60000"
proof -
  have "real_of_int d / 1000 / 60 = real_of_int d / real_of_int 60000"
    by simp
  then show ?thesis
    by (simp only: floor_divide_of_int_eq)
qed

lemma age_eq:
  "age rt now m =
     (if \<bar>now - createdAt m\<bar> < 4000000000000000 then (now - createdAt m) div 60000
      else rt_age rt now (createdAt m))"
  unfolding age_def floor_minutes by (rule refl)

section \<open>List\<close>

text \<open>
  The comparison function reads a property the views do not have, so every comparison
  is \<open>NaN\<close>, the sort keeps the order it is given, and the listing is in the order of
  the store.
\<close>

lemma sort_compare_views [simp]: "sort_compare compare_views a b = Fin 0"
  by (simp add: sort_compare_def compare_views_def view_lastHeartbeat_def)

lemma sort_insert_views [simp]: "sort_insert compare_views v vs = v # vs"
  by (cases vs) simp_all

lemma js_sort_views [simp]: "js_sort compare_views vs = vs"
  by (induction vs) simp_all

lemma list_matches_eq:
  "list_matches rt now matches =
     (\<lparr> l_matches = take 100 (map (view rt now) (filter (active now) (map snd matches))),
        l_total = min 100 (length (filter (active now) (map snd matches))),
        l_timestamp = now \<rparr>, matches)"
  by (simp add: list_matches_def Let_def min.commute)

lemma list_matches_ids:
  "map v_id (l_matches (fst (list_matches rt now matches)))
     = take 100 (map id' (filter (active now) (map snd matches)))"
  by (simp add: list_matches_eq take_map view_def comp_def)

lemma active_eq: "active now = (\<lambda>m. now - lastHeartbeat m < 120000)"
  by (rule ext) (simp add: active_def)

lemma view_eq:
  "view rt now =
     (\<lambda>m. \<lparr> v_id = id' m, v_hostName = hostName m, v_proxyAddress = proxyAddress m,
            v_proxyPort = proxyPort m,
            v_proxyUrl = proxyAddress m @ '':'' @ number_to_string rt (proxyPort m),
            v_map = map' m, v_maxPlayers = maxPlayers m,
            v_playersConnected = playersConnected m,
            v_age = (if \<bar>now - createdAt m\<bar> < 4000000000000000
                     then (now - createdAt m) div 60000 else rt_age rt now (createdAt m)),
            v_isRecent = (now - lastHeartbeat m < 30000) \<rparr>)"
  by (rule ext) (simp only: view_def age_eq)

text \<open>
  C9. For every store and every clock reading \<open>now\<close>, the listing has at most 100
  entries (exactly 100 when at least 100 matches are active). The one reading \<open>now\<close> is
  used throughout: the views returned are those of the stored matches with
  \<open>now - lastHeartbeat < 120000\<close>, in the order of the store and cut after 100; the age
  of a view is the whole number of minutes in \<open>now - createdAt\<close> (the floor of the
  quotient by 60000; for differences of \<open>4 * 10^15\<close> ms or more, what the runtime's
  divisions give), its recent flag is \<open>now - lastHeartbeat < 30000\<close>, and the time stamp
  returned is \<open>now\<close>. The total is the length of the returned sequence, and the store
  after the call is the store before it.
\<close>

theorem list_bounded_read_only:
  "length (l_matches (fst (list_matches rt now matches))) \<le> 100
   \<and> length (l_matches (fst (list_matches rt now matches)))
       = min 100 (length (filter (\<lambda>m. now - lastHeartbeat m < 120000) (map snd matches)))
   \<and> l_matches (fst (list_matches rt now matches))
       = take 100
           (map (\<lambda>m. \<lparr> v_id = id' m, v_hostName = hostName m, v_proxyAddress = proxyAddress m,
                       v_proxyPort = proxyPort m,
                       v_proxyUrl = proxyAddress m @ '':'' @ number_to_string rt (proxyPort m),
                       v_map = map' m, v_maxPlayers = maxPlayers m,
                       v_playersConnected = playersConnected m,
                       v_age = (if \<bar>now - createdAt m\<bar> < 4000000000000000
                                then (now - createdAt m) div 60000
                                else rt_age rt now (createdAt m)),
                       v_isRecent = (now - lastHeartbeat m < 30000) \<rparr>)
              (filter (\<lambda>m. now - lastHeartbeat m < 120000) (map snd matches)))
   \<and> l_matches (fst (list_matches rt now matches))
       = take 100 (map (view rt now) (filter (active now) (map snd matches)))
   \<and> l_total (fst (list_matches rt now matches))
       = length (l_matches (fst (list_matches rt now matches)))
   \<and> l_timestamp (fst (list_matches rt now matches)) = now
   \<and> snd (list_matches rt now matches) = matches"
proof -
  have "l_matches (fst (list_matches rt now matches))
          = take 100 (map (view rt now) (filter (active now) (map snd matches)))"
    by (simp add: list_matches_eq)
  moreover have "l_total (fst (list_matches rt now matches))
          = length (l_matches (fst (list_matches rt now matches)))"
    by (simp add: list_matches_eq min.commute)
  moreover have "l_timestamp (fst (list_matches rt now matches)) = now"
    by (simp add: list_matches_eq)
  moreover have "snd (list_matches rt now matches) = matches"
    by (simp add: list_matches_eq)
  moreover have "length (l_matches (fst (list_matches rt now matches)))
          = min 100 (length (filter (active now) (map snd matches)))"
    by (simp add: list_matches_eq min.commute)
  ultimately show ?thesis
    unfolding view_eq active_eq by simp
qed

theorem list_bounded_read_only_witness:
  "map v_id (l_matches (fst (list_matches example_runtime 130000
       [(''a'', example_match ''a'' 0 100000), (''b'', example_match ''b'' 50000 125000),
        (''c'', example_match ''c'' 0 0)]))) = [''a'', ''b'']
   \<and> map v_age (l_matches (fst (list_matches example_runtime 130000
       [(''a'', example_match ''a'' 0 100000), (''b'', example_match ''b'' 50000 125000),
        (''c'', example_match ''c'' 0 0)]))) = [2, 1]
   \<and> map v_isRecent (l_matches (fst (list_matches example_runtime 130000
       [(''a'', example_match ''a'' 0 100000), (''b'', example_match ''b'' 50000 125000),
        (''c'', example_match ''c'' 0 0)]))) = [False, True]
   \<and> l_total (fst (list_matches example_runtime 130000
       [(''a'', example_match ''a'' 0 100000), (''b'', example_match ''b'' 50000 125000),
        (''c'', example_match ''c'' 0 0)])) = 2
   \<and> l_timestamp (fst (list_matches example_runtime 130000
       [(''a'', example_match ''a'' 0 100000), (''b'', example_match ''b'' 50000 125000),
        (''c'', example_match ''c'' 0 0)])) = 130000"
  using list_bounded_read_only
          [where rt = example_runtime and now = 130000
             and matches = "[(''a'', example_match ''a'' 0 100000),
                             (''b'', example_match ''b'' 50000 125000),
                             (''c'', example_match ''c'' 0 0)]"]
  by (simp add: example_match_def)

text \<open>
  C1. The listing is not ordered by \<open>lastHeartbeat\<close>. Two matches are registered, \<open>a\<close>
  at time 0 and \<open>b\<close> at time 1000; the listing at time 2000 shows \<open>a\<close> before \<open>b\<close>,
  although \<open>b\<close> has the later heartbeat; after a successful heartbeat of \<open>b\<close> at time
  1500 the listing still shows \<open>a\<close> first.
\<close>

theorem list_keeps_insertion_order_example:
  "(let st1 = snd (register example_runtime ''a'' 0 0 example_body []);
        st2 = snd (register example_runtime ''b'' 1000 1000 example_body st1);
        st3 = snd (heartbeat 1500 (Some (JStr ''b'')) st2)
    in map (lastHeartbeat \<circ> snd) st2 = [0, 1000]
       \<and> map v_id (l_matches (fst (list_matches example_runtime 2000 st2))) = [''a'', ''b'']
       \<and> fst (heartbeat 1500 (Some (JStr ''b'')) st2) = Inr ()
       \<and> map (lastHeartbeat \<circ> snd) st3 = [0, 1500]
       \<and> map v_id (l_matches (fst (list_matches example_runtime 2000 st3))) = [''a'', ''b''])"
  by (simp add: register_example list_matches_ids heartbeat_def map_get_def example_match_def
      active_def)

section \<open>Rate limiting\<close>

lemma map_of_seen: "map_of (if map_of rl key = None then AList.update key [] rl else rl) key
   = Some (history rl key)"
  by (auto simp: history_def update_conv')

lemma rate_limit_eq:
  "rate_limit now key rl =
     (let recent = filter (\<lambda>t. now - t < 60000) (history rl key @ [now])
      in (if length recent > 15 then Inl RateLimitExceeded else Inr (),
          AList.update key recent (if map_of rl key = None then AList.update key [] rl else rl)))"
  unfolding rate_limit_def Let_def map_of_seen by (simp add: history_def)

lemma history_rate_limit:
  "history (snd (rate_limit now key rl)) key = filter (\<lambda>t. now - t < 60000) (history rl key @ [now])"
  by (simp add: rate_limit_eq Let_def history_def update_conv')

lemma history_rate_limit_other:
  "key' \<noteq> key \<Longrightarrow> history (snd (rate_limit now key rl)) key' = history rl key'"
  by (simp add: rate_limit_eq Let_def history_def update_conv')

lemma fst_rate_limit:
  "fst (rate_limit now key rl) =
     (if length (filter (\<lambda>t. now - t < 60000) (history rl key @ [now])) > 15
      then Inl RateLimitExceeded else Inr ())"
  by (simp add: rate_limit_eq Let_def)

lemma rate_run_Cons:
  "rate_run key (t # ts) rl =
     (fst (rate_limit t key rl) # fst (rate_run key ts (snd (rate_limit t key rl))),
      snd (rate_run key ts (snd (rate_limit t key rl))))"
  by (simp add: split_def Let_def)

lemma rate_run_in_window:
  assumes "\<forall>u\<in>set ts. \<forall>s\<in>set (history rl key) \<union> set ts. u - s < 60000"
  shows "fst (rate_run key ts rl)
           = map (\<lambda>i. if length (history rl key) + i < 15 then Inr () else Inl RateLimitExceeded)
               [0..<length ts]
         \<and> history (snd (rate_run key ts rl)) key = history rl key @ ts"
  using assms
proof (induction ts arbitrary: rl)
  case Nil
  then show ?case by simp
next
  case (Cons t ts)
  let ?rl1 = "snd (rate_limit t key rl)"
  have keep: "filter (\<lambda>s. t - s < 60000) (history rl key @ [t]) = history rl key @ [t]"
    using Cons.prems by (auto simp: filter_id_conv)
  have h1: "history ?rl1 key = history rl key @ [t]"
    by (simp only: history_rate_limit keep)
  have a1: "fst (rate_limit t key rl)
             = (if length (history rl key) + 0 < 15 then Inr () else Inl RateLimitExceeded)"
    unfolding fst_rate_limit keep by auto
  have "\<forall>u\<in>set ts. \<forall>s\<in>set (history ?rl1 key) \<union> set ts. u - s < 60000"
    using Cons.prems by (auto simp: h1)
  from Cons.IH [OF this]
  have ih: "fst (rate_run key ts ?rl1)
              = map (\<lambda>i. if length (history rl key) + Suc i < 15 then Inr () else Inl RateLimitExceeded)
                  [0..<length ts]"
    and hh: "history (snd (rate_run key ts ?rl1)) key = history rl key @ t # ts"
    by (simp_all add: h1)
  have "map (\<lambda>i. if length (history rl key) + i < 15 then Inr () else Inl RateLimitExceeded)
          [0..<length (t # ts)]
        = (if length (history rl key) + 0 < 15 then Inr () else Inl RateLimitExceeded)
          # map (\<lambda>i. if length (history rl key) + Suc i < 15 then Inr () else (Inl RateLimitExceeded :: error + unit))
              [0..<length ts]"
    by (simp add: upt_conv_Cons map_Suc_upt [symmetric] del: upt_Suc)
  then show ?case
    by (simp only: rate_run_Cons fst_conv snd_conv a1 ih hh)
qed

lemma rate_run_fresh_window:
  assumes old: "\<forall>s\<in>set (history rl key). \<forall>u\<in>set ts. 60000 \<le> u - s"
      and win: "\<forall>u\<in>set ts. \<forall>s\<in>set ts. u - s < 60000"
  shows "fst (rate_run key ts rl)
           = map (\<lambda>i. if i < 15 then Inr () else Inl RateLimitExceeded) [0..<length ts]"
proof (cases ts)
  case Nil
  then show ?thesis by simp
next
  case (Cons t ts')
  let ?rl1 = "snd (rate_limit t key rl)"
  have drop: "filter (\<lambda>s. t - s < 60000) (history rl key @ [t]) = [t]"
    using old Cons by (auto simp: filter_empty_conv)
  have h1: "history ?rl1 key = [t]"
    by (simp only: history_rate_limit drop)
  have a1: "fst (rate_limit t key rl) = Inr ()"
    unfolding fst_rate_limit drop by simp
  have "\<forall>u\<in>set ts'. \<forall>s\<in>set (history ?rl1 key) \<union> set ts'. u - s < 60000"
    using win Cons by (auto simp: h1)
  from rate_run_in_window [OF this]
  have r: "fst (rate_run key ts' ?rl1)
             = map (\<lambda>i. if Suc i < 15 then Inr () else Inl RateLimitExceeded) [0..<length ts']"
    by (simp add: h1)
  have "map (\<lambda>i. if i < 15 then Inr () else Inl RateLimitExceeded) [0..<length (t # ts')]
        = Inr () # map (\<lambda>i. if Suc i < 15 then Inr () else (Inl RateLimitExceeded :: error + unit))
                     [0..<length ts']"
    by (simp add: upt_conv_Cons map_Suc_upt [symmetric] del: upt_Suc)
  then show ?thesis
    by (simp only: Cons rate_run_Cons fst_conv a1 r)
qed

lemma rate_limit_after_window:
  assumes "\<forall>s\<in>set (history rl key). 60000 \<le> now - s"
  shows "fst (rate_limit now key rl) = Inr () \<and> history (snd (rate_limit now key rl)) key = [now]"
proof -
  have "filter (\<lambda>s. now - s < 60000) (history rl key @ [now]) = [now]"
    using assms by (auto simp: filter_empty_conv)
  then show ?thesis
    unfolding fst_rate_limit history_rate_limit by simp
qed

text \<open>
  C3. For a key, one call of the limiter at clock reading \<open>now\<close> leaves as the key's
  history the old history with \<open>now\<close> appended, restricted to the stamps \<open>t\<close> with
  \<open>now - t < 60000\<close>; it denies exactly when that history has more than 15 entries and
  admits exactly when it has at most 15. The stamp of the call is in the stored history
  whether the call was admitted or denied, and the histories of other keys are not
  touched. Hence, for calls of one key whose clock readings lie within less than
  60000 ms of one another and at least 60000 ms after every older stamp, the first 15
  are admitted and the 16th and later ones are denied; and a call made when every stored
  stamp is at least 60000 ms old is admitted, with a history of that call alone.
\<close>

theorem rate_limit_sliding_window:
  "history (snd (rate_limit now key rl)) key
     = filter (\<lambda>t. now - t < 60000) (history rl key @ [now])
   \<and> (fst (rate_limit now key rl) = Inl RateLimitExceeded)
       = (15 < length (history (snd (rate_limit now key rl)) key))
   \<and> (fst (rate_limit now key rl) = Inr ())
       = (length (history (snd (rate_limit now key rl)) key) \<le> 15)
   \<and> now \<in> set (history (snd (rate_limit now key rl)) key)
   \<and> (key' \<noteq> key \<longrightarrow> history (snd (rate_limit now key rl)) key' = history rl key')
   \<and> ((\<forall>s\<in>set (history rl key). \<forall>u\<in>set ts. 60000 \<le> u - s)
        \<and> (\<forall>u\<in>set ts. \<forall>s\<in>set ts. u - s < 60000)
       \<longrightarrow> fst (rate_run key ts rl)
            = map (\<lambda>i. if i < 15 then Inr () else Inl RateLimitExceeded) [0..<length ts])
   \<and> ((\<forall>s\<in>set (history rl key). 60000 \<le> now - s)
       \<longrightarrow> fst (rate_limit now key rl) = Inr ()
           \<and> history (snd (rate_limit now key rl)) key = [now])"
proof (intro conjI impI)
  show "history (snd (rate_limit now key rl)) key
          = filter (\<lambda>t. now - t < 60000) (history rl key @ [now])"
    by (rule history_rate_limit)
  show "(fst (rate_limit now key rl) = Inl RateLimitExceeded)
          = (15 < length (history (snd (rate_limit now key rl)) key))"
    unfolding fst_rate_limit history_rate_limit by simp
  show "(fst (rate_limit now key rl) = Inr ())
          = (length (history (snd (rate_limit now key rl)) key) \<le> 15)"
    unfolding fst_rate_limit history_rate_limit by auto
  show "now \<in> set (history (snd (rate_limit now key rl)) key)"
    unfolding history_rate_limit by simp
  show "history (snd (rate_limit now key rl)) key' = history rl key'" if "key' \<noteq> key"
    using that by (rule history_rate_limit_other)
  show "fst (rate_run key ts rl)
          = map (\<lambda>i. if i < 15 then Inr () else Inl RateLimitExceeded) [0..<length ts]"
    if "(\<forall>s\<in>set (history rl key). \<forall>u\<in>set ts. 60000 \<le> u - s)
        \<and> (\<forall>u\<in>set ts. \<forall>s\<in>set ts. u - s < 60000)"
    using that by (intro rate_run_fresh_window) simp_all
  show "fst (rate_limit now key rl) = Inr ()"
    if "\<forall>s\<in>set (history rl key). 60000 \<le> now - s"
    using rate_limit_after_window [OF that] by simp
  show "history (snd (rate_limit now key rl)) key = [now]"
    if "\<forall>s\<in>set (history rl key). 60000 \<le> now - s"
    using rate_limit_after_window [OF that] by simp
qed

theorem rate_limit_sliding_window_witness:
  "fst (rate_run ''k'' [0, 1, 2, 3, 4, 5, 6, 7, 8, 9, 10, 11, 12, 13, 14, 59999] [])
     = [Inr (), Inr (), Inr (), Inr (), Inr (), Inr (), Inr (), Inr (), Inr (), Inr (),
        Inr (), Inr (), Inr (), Inr (), Inr (), Inl RateLimitExceeded]
   \<and> fst (rate_limit 60002 ''k'' [(''k'', [0, 1, 2])]) = Inr ()
   \<and> history (snd (rate_limit 60002 ''k'' [(''k'', [0, 1, 2])])) ''k'' = [60002]
   \<and> history (snd (rate_limit 60002 ''k'' [(''k'', [0, 1, 2])])) ''j'' = []"
  using rate_limit_sliding_window
          [of 0 "''k''" "[]" "''j''" "[0, 1, 2, 3, 4, 5, 6, 7, 8, 9, 10, 11, 12, 13, 14, 59999]"]
        rate_limit_sliding_window [of 60002 "''k''" "[(''k'', [0, 1, 2])]" "''j''" "[]"]
  by (simp add: history_def)

section \<open>Heartbeat and unregister\<close>

lemma map_get_Some:
  "(map_get matches idv = Some (k, m)) = (idv = Some (JStr k) \<and> map_of matches k = Some m)"
  by (cases idv rule: map_key.cases) (auto simp: map_get_def split: option.splits)

lemma map_get_None:
  "(map_get matches idv = None) = (\<forall>k. idv = Some (JStr k) \<longrightarrow> k \<notin> fst ` set matches)"
  by (cases idv rule: map_key.cases)
     (auto simp: map_get_def map_of_eq_None_iff [symmetric] split: option.splits)

lemma heartbeat_None: "map_get matches idv = None \<Longrightarrow> heartbeat now idv matches = (Inl NotFoundError, matches)"
  by (simp add: heartbeat_def)

lemma heartbeat_Some:
  "map_get matches idv = Some (k, m) \<Longrightarrow>
   heartbeat now idv matches = (Inr (), AList.update k (m\<lparr>lastHeartbeat := now\<rparr>) matches)"
  by (simp add: heartbeat_def)

lemma unregister_None: "map_get matches idv = None \<Longrightarrow> unregister idv matches = (Inl NotFoundError, matches)"
  by (simp add: unregister_def)

lemma unregister_Some:
  "map_get matches idv = Some (k, m) \<Longrightarrow> unregister idv matches = (Inr (), AList.delete k matches)"
  by (simp add: unregister_def)

lemma update_present_keys: "map_of al k = Some v \<Longrightarrow> map fst (AList.update k v' al) = map fst al"
  by (simp add: update_keys map_of_eq_None_iff [symmetric])

lemma fst_heartbeat_NotFound:
  "(fst (heartbeat now idv matches) = Inl NotFoundError) = (map_get matches idv = None)"
  by (cases "map_get matches idv") (auto simp: heartbeat_def)

text \<open>
  C6. A heartbeat fails with \<open>NotFoundError\<close> exactly when the store has no match under
  the given id (the id is not a string, or no key equals it), and then the store is
  unchanged. Otherwise it succeeds, the match under that key is the old one with
  \<open>lastHeartbeat\<close> set to the clock reading and every other field as before, every
  other key maps to what it mapped to, and the keys keep their order.
\<close>

theorem heartbeat_frame:
  "(fst (heartbeat now idv matches) = Inl NotFoundError) = (map_get matches idv = None)
   \<and> (map_get matches idv = None) = (\<forall>k. idv = Some (JStr k) \<longrightarrow> k \<notin> fst ` set matches)
   \<and> (map_get matches idv = None \<longrightarrow> heartbeat now idv matches = (Inl NotFoundError, matches))
   \<and> (\<forall>k m. map_get matches idv = Some (k, m) \<longrightarrow>
         fst (heartbeat now idv matches) = Inr ()
         \<and> map_of (snd (heartbeat now idv matches)) k = Some (m\<lparr>lastHeartbeat := now\<rparr>)
         \<and> (\<forall>k'. k' \<noteq> k \<longrightarrow> map_of (snd (heartbeat now idv matches)) k' = map_of matches k')
         \<and> map fst (snd (heartbeat now idv matches)) = map fst matches)"
proof (intro conjI allI impI)
  show "(fst (heartbeat now idv matches) = Inl NotFoundError) = (map_get matches idv = None)"
    by (rule fst_heartbeat_NotFound)
  show "(map_get matches idv = None) = (\<forall>k. idv = Some (JStr k) \<longrightarrow> k \<notin> fst ` set matches)"
    by (rule map_get_None)
  show "heartbeat now idv matches = (Inl NotFoundError, matches)" if "map_get matches idv = None"
    using that by (rule heartbeat_None)
next
  fix k m assume g: "map_get matches idv = Some (k, m)"
  note hb = heartbeat_Some [OF g, of now]
  show "fst (heartbeat now idv matches) = Inr ()" by (simp add: hb)
  show "map_of (snd (heartbeat now idv matches)) k = Some (m\<lparr>lastHeartbeat := now\<rparr>)"
    by (simp add: hb update_conv')
  show "map_of (snd (heartbeat now idv matches)) k' = map_of matches k'" if "k' \<noteq> k" for k'
    using that by (simp add: hb update_conv')
  from g have "map_of matches k = Some m" by (simp add: map_get_Some)
  then show "map fst (snd (heartbeat now idv matches)) = map fst matches"
    by (simp add: hb update_present_keys)
qed

theorem heartbeat_frame_witness:
  "heartbeat 1500 (Some (JStr ''b'')) [(''a'', example_match ''a'' 0 0), (''b'', example_match ''b'' 1000 1000)]
     = (Inr (), [(''a'', example_match ''a'' 0 0), (''b'', example_match ''b'' 1000 1500)])
   \<and> heartbeat 1500 (Some (JStr ''c'')) [(''a'', example_match ''a'' 0 0)]
     = (Inl NotFoundError, [(''a'', example_match ''a'' 0 0)])"
  using heartbeat_frame [of 1500 "Some (JStr ''b'')" "[(''a'', example_match ''a'' 0 0), (''b'', example_match ''b'' 1000 1000)]"]
        heartbeat_frame [of 1500 "Some (JStr ''c'')" "[(''a'', example_match ''a'' 0 0)]"]
  by (simp add: map_get_def heartbeat_def example_match_def)

section \<open>Register, and what every store satisfies\<close>

lemma ids_ok_update: "ids_ok matches \<Longrightarrow> id' m = k \<Longrightarrow> ids_ok (AList.update k m matches)"
  unfolding ids_ok_def by (induction matches) auto

lemma ids_ok_delete: "ids_ok matches \<Longrightarrow> ids_ok (AList.delete k matches)"
  unfolding ids_ok_def by (auto simp: AList.delete_eq)

lemma ids_ok_map_of: "ids_ok matches \<Longrightarrow> map_of matches k = Some m \<Longrightarrow> id' m = k"
  unfolding ids_ok_def by (auto dest: map_of_SomeD)

lemma text_field_Inr: "(text_field v = Inr s) = (v = Some (JStr s) \<and> trim s \<noteq> [])"
  by (cases v rule: text_field.cases) auto

lemma text_field_Inl: "text_field v = Inl e \<Longrightarrow> e = ValidationError \<or> e = TypeError"
  by (cases v rule: text_field.cases) (auto split: if_splits)

lemma text_field_blank: "blank v \<Longrightarrow> text_field v = Inl ValidationError"
  by (cases v rule: text_field.cases) auto

lemma text_field_not_blank: "nullish_or_string v \<Longrightarrow> \<not> blank v \<Longrightarrow> \<exists>s. text_field v = Inr s"
  by (cases v rule: text_field.cases) auto

lemma port_field_Inr: "(port_field v = Inr p) = (v = Some p \<and> truthy (Some p))"
  by (cases v) auto

lemma port_field_Inl: "(port_field v = Inl e) = (e = ValidationError \<and> \<not> truthy v)"
  by (cases v) auto

lemma check_fields_Inr:
  "(check_fields body = Inr (h, a, p, mp)) =
     (b_hostName body = Some (JStr h) \<and> trim h \<noteq> [] \<and>
      b_proxyAddress body = Some (JStr a) \<and> trim a \<noteq> [] \<and>
      b_proxyPort body = Some p \<and> truthy (Some p) \<and>
      b_map body = Some (JStr mp) \<and> trim mp \<noteq> [])"
  by (auto simp: check_fields_def text_field_Inr port_field_Inr split: sum.splits if_splits)

lemma check_fields_Inl: "check_fields body = Inl e \<Longrightarrow> e = ValidationError \<or> e = TypeError"
  by (auto simp: check_fields_def port_field_Inl split: sum.splits dest: text_field_Inl)

lemma register_fail:
  "check_fields body = Inl e \<Longrightarrow> register rt uuid t1 t2 body matches = (Inl e, matches)"
  by (simp add: register_def)

lemma register_throw:
  "check_fields body = Inr (h, a, p, mp) \<Longrightarrow> to_primitive_throws p \<Longrightarrow>
   register rt uuid t1 t2 body matches = (Inl TypeError, matches)"
  by (simp add: register_def)

lemma register_pass:
  "check_fields body = Inr (h, a, p, mp) \<Longrightarrow> \<not> to_primitive_throws p \<Longrightarrow>
   register rt uuid t1 t2 body matches =
     (Inr \<lparr> r_id = uuid, r_proxyUrl = a @ '':'' @ to_string rt p \<rparr>,
      AList.update uuid
        \<lparr> id' = uuid, hostName = trim h, proxyAddress = trim a, proxyPort = parseInt rt p,
          map' = trim mp,
          maxPlayers = (case b_maxPlayers body of None \<Rightarrow> JNum (Fin 8) | Some v \<Rightarrow> v),
          playersConnected = 0, createdAt = t1, lastHeartbeat = t2 \<rparr> matches)"
  by (simp add: register_def Let_def)

lemma register_Inl:
  "fst (register rt uuid t1 t2 body matches) = Inl e \<Longrightarrow>
   snd (register rt uuid t1 t2 body matches) = matches"
  by (auto simp: register_def Let_def split: sum.splits if_splits)

lemma register_error_kinds:
  "fst (register rt uuid t1 t2 body matches) = Inl e \<Longrightarrow> e = ValidationError \<or> e = TypeError"
  by (auto simp: register_def Let_def split: sum.splits if_splits dest: check_fields_Inl)

lemma register_Inr_check:
  assumes "fst (register rt uuid t1 t2 body matches) = Inr r"
  shows "\<exists>h a p mp. check_fields body = Inr (h, a, p, mp) \<and> \<not> to_primitive_throws p"
  using assms by (auto simp: register_def Let_def split: sum.splits if_splits)

lemma register_Inr:
  assumes "fst (register rt uuid t1 t2 body matches) = Inr r"
  shows "\<exists>h a p mp.
        b_hostName body = Some (JStr h) \<and> trim h \<noteq> [] \<and>
        b_proxyAddress body = Some (JStr a) \<and> trim a \<noteq> [] \<and>
        b_proxyPort body = Some p \<and> truthy (Some p) \<and> \<not> to_primitive_throws p \<and>
        b_map body = Some (JStr mp) \<and> trim mp \<noteq> [] \<and>
        register rt uuid t1 t2 body matches =
          (Inr \<lparr> r_id = uuid, r_proxyUrl = a @ '':'' @ to_string rt p \<rparr>,
           AList.update uuid
             \<lparr> id' = uuid, hostName = trim h, proxyAddress = trim a, proxyPort = parseInt rt p,
               map' = trim mp,
               maxPlayers = (case b_maxPlayers body of None \<Rightarrow> JNum (Fin 8) | Some v \<Rightarrow> v),
               playersConnected = 0, createdAt = t1, lastHeartbeat = t2 \<rparr> matches)"
proof -
  from register_Inr_check [OF assms] obtain h a p mp where
    c: "check_fields body = Inr (h, a, p, mp)" and nt: "\<not> to_primitive_throws p"
    by blast
  from c [unfolded check_fields_Inr]
  have "b_hostName body = Some (JStr h) \<and> trim h \<noteq> [] \<and>
      b_proxyAddress body = Some (JStr a) \<and> trim a \<noteq> [] \<and>
      b_proxyPort body = Some p \<and> truthy (Some p) \<and>
      b_map body = Some (JStr mp) \<and> trim mp \<noteq> []" .
  with nt register_pass [OF c nt, of rt uuid t1 t2 matches] show ?thesis
    by blast
qed

lemma register_Inr_store:
  assumes "fst (register rt uuid t1 t2 body matches) = Inr r"
  shows "\<exists>m. id' m = uuid \<and> snd (register rt uuid t1 t2 body matches) = AList.update uuid m matches"
proof -
  from register_Inr [OF assms] obtain m where
    "register rt uuid t1 t2 body matches = (fst (register rt uuid t1 t2 body matches), AList.update uuid m matches)"
    and "id' m = uuid"
    by fastforce
  then have "snd (register rt uuid t1 t2 body matches) = AList.update uuid m matches"
    by (metis snd_conv)
  with \<open>id' m = uuid\<close> show ?thesis by blast
qed

lemma register_keys:
  "fst ` set (snd (register rt uuid t1 t2 body matches)) \<subseteq> insert uuid (fst ` set matches)"
proof (cases "fst (register rt uuid t1 t2 body matches)")
  case (Inl e)
  then show ?thesis by (auto simp: register_Inl)
next
  case (Inr r)
  from register_Inr_store [OF this] obtain m where
    "snd (register rt uuid t1 t2 body matches) = AList.update uuid m matches" by blast
  then show ?thesis by (simp add: dom_update)
qed

lemma register_keys_mono:
  "fst ` set matches \<subseteq> fst ` set (snd (register rt uuid t1 t2 body matches))"
proof (cases "fst (register rt uuid t1 t2 body matches)")
  case (Inl e)
  then show ?thesis by (simp add: register_Inl)
next
  case (Inr r)
  from register_Inr_store [OF this] obtain m where
    "snd (register rt uuid t1 t2 body matches) = AList.update uuid m matches" by blast
  then show ?thesis by (simp add: dom_update subset_insertI)
qed

lemma register_ids_ok:
  assumes "ids_ok matches"
  shows "ids_ok (snd (register rt uuid t1 t2 body matches))"
proof (cases "fst (register rt uuid t1 t2 body matches)")
  case (Inl e)
  with assms show ?thesis by (simp add: register_Inl)
next
  case (Inr r)
  from register_Inr_store [OF this] obtain m where
    "id' m = uuid" "snd (register rt uuid t1 t2 body matches) = AList.update uuid m matches" by blast
  with assms show ?thesis by (simp add: ids_ok_update)
qed

lemma register_distinct:
  assumes "distinct (map fst matches)"
  shows "distinct (map fst (snd (register rt uuid t1 t2 body matches)))"
proof (cases "fst (register rt uuid t1 t2 body matches)")
  case (Inl e)
  with assms show ?thesis by (simp add: register_Inl)
next
  case (Inr r)
  from register_Inr_store [OF this] obtain m where
    "snd (register rt uuid t1 t2 body matches) = AList.update uuid m matches" by blast
  with assms show ?thesis by (simp add: distinct_update)
qed

lemma heartbeat_keys: "map fst (snd (heartbeat now idv matches)) = map fst matches"
proof (cases "map_get matches idv")
  case None
  then show ?thesis by (simp add: heartbeat_None)
next
  case (Some km)
  then obtain k m where g: "map_get matches idv = Some (k, m)" by (cases km) auto
  then have "map_of matches k = Some m" by (simp add: map_get_Some)
  then show ?thesis by (simp add: heartbeat_Some [OF g] update_present_keys)
qed

lemma heartbeat_ids_ok: "ids_ok matches \<Longrightarrow> ids_ok (snd (heartbeat now idv matches))"
proof (cases "map_get matches idv")
  case None
  then show "ids_ok matches \<Longrightarrow> ?thesis" by (simp add: heartbeat_None)
next
  case (Some km)
  then obtain k m where g: "map_get matches idv = Some (k, m)" by (cases km) auto
  then have "map_of matches k = Some m" by (simp add: map_get_Some)
  then show "ids_ok matches \<Longrightarrow> ?thesis"
    by (simp add: heartbeat_Some [OF g] ids_ok_update ids_ok_map_of)
qed

lemma unregister_eq:
  "unregister idv matches =
     (case map_get matches idv of None \<Rightarrow> (Inl NotFoundError, matches)
      | Some (k, m) \<Rightarrow> (Inr (), AList.delete k matches))"
  by (simp add: unregister_def)

lemma unregister_keys: "fst ` set (snd (unregister idv matches)) \<subseteq> fst ` set matches"
proof (cases "map_get matches idv")
  case None
  then show ?thesis by (simp add: unregister_None)
next
  case (Some km)
  then obtain k m where g: "map_get matches idv = Some (k, m)" by (cases km) auto
  show ?thesis by (simp add: unregister_Some [OF g] dom_delete_subset)
qed

lemma unregister_ids_ok: "ids_ok matches \<Longrightarrow> ids_ok (snd (unregister idv matches))"
  by (auto simp: unregister_eq ids_ok_delete split: option.splits)

lemma unregister_distinct:
  "distinct (map fst matches) \<Longrightarrow> distinct (map fst (snd (unregister idv matches)))"
  by (auto simp: unregister_eq distinct_delete split: option.splits)

lemma keys_heartbeat: "fst ` set (snd (heartbeat now idv matches)) = fst ` set matches"
proof -
  have "set (map fst (snd (heartbeat now idv matches))) = set (map fst matches)"
    by (simp only: heartbeat_keys)
  then show ?thesis by (simp only: set_map)
qed

lemma step_keys:
  assumes "k \<in> fst ` set (step rt r matches)"
  shows "k \<in> fst ` set matches \<or> generated_id r = Some k"
proof (cases r)
  case (Register uuid t1 t2 body)
  with assms register_keys [of rt uuid t1 t2 body matches] show ?thesis by auto
next
  case (Heartbeat now idv)
  with assms show ?thesis by (simp add: keys_heartbeat)
next
  case (ListMatches now)
  with assms show ?thesis by (simp add: list_matches_def Let_def)
next
  case (Unregister idv)
  with assms unregister_keys [of idv matches] show ?thesis by auto
next
  case (Health clock)
  with assms show ?thesis by (simp add: health_def)
next
  case (Stats now)
  with assms show ?thesis by (simp add: stats_def)
qed

lemma step_ids_ok: "ids_ok matches \<Longrightarrow> ids_ok (step rt r matches)"
  by (cases r)
     (simp_all add: register_ids_ok heartbeat_ids_ok unregister_ids_ok list_matches_def
        health_def stats_def Let_def)

lemma step_distinct: "distinct (map fst matches) \<Longrightarrow> distinct (map fst (step rt r matches))"
  by (cases r)
     (simp_all add: register_distinct heartbeat_keys unregister_distinct list_matches_def
        health_def stats_def Let_def)

lemma run_ids_ok: "ids_ok matches \<Longrightarrow> ids_ok (run rt rs matches)"
  by (induction rs arbitrary: matches) (simp_all add: step_ids_ok)

lemma run_distinct: "distinct (map fst matches) \<Longrightarrow> distinct (map fst (run rt rs matches))"
  by (induction rs arbitrary: matches) (simp_all add: step_distinct)

lemma run_wf: "wf_registry matches \<Longrightarrow> wf_registry (run rt rs matches)"
  by (simp add: wf_registry_def run_ids_ok run_distinct)

lemma wf_empty: "wf_registry []"
  by (simp add: wf_registry_def ids_ok_def)

lemma run_absent:
  "k \<notin> fst ` set matches \<Longrightarrow> Some k \<notin> generated_id ` set rs \<Longrightarrow> k \<notin> fst ` set (run rt rs matches)"
proof (induction rs arbitrary: matches)
  case Nil
  then show ?case by simp
next
  case (Cons r rs)
  from Cons.prems have "generated_id r \<noteq> Some k" by force
  with Cons.prems(1) step_keys [of k rt r matches] have "k \<notin> fst ` set (step rt r matches)"
    by blast
  moreover from Cons.prems have "Some k \<notin> generated_id ` set rs" by simp
  ultimately have "k \<notin> fst ` set (run rt rs (step rt r matches))" by (rule Cons.IH)
  then show ?case by simp
qed

lemma step_keeps_key:
  assumes k: "k \<in> fst ` set matches" and ne: "r \<noteq> Unregister (Some (JStr k))"
  shows "k \<in> fst ` set (step rt r matches)"
proof (cases r)
  case (Register uuid t1 t2 body)
  with k register_keys_mono [of matches rt uuid t1 t2 body] show ?thesis by auto
next
  case (Heartbeat now idv)
  with k show ?thesis by (simp add: keys_heartbeat)
next
  case (ListMatches now)
  with k show ?thesis by (simp add: list_matches_def Let_def)
next
  case (Unregister idv)
  show ?thesis
  proof (cases "map_get matches idv")
    case None
    with Unregister k show ?thesis by (simp add: unregister_None)
  next
    case (Some km)
    then obtain k' m where g: "map_get matches idv = Some (k', m)" by (cases km) auto
    then have "idv = Some (JStr k')" by (simp add: map_get_Some)
    with ne Unregister have "k' \<noteq> k" by auto
    from k obtain m' where "(k, m') \<in> set matches" by auto
    with \<open>k' \<noteq> k\<close> have "(k, m') \<in> set (AList.delete k' matches)"
      by (simp add: AList.delete_eq)
    then have "k \<in> fst ` set (AList.delete k' matches)" by force
    with Unregister show ?thesis by (simp add: unregister_Some [OF g])
  qed
next
  case (Health clock)
  with k show ?thesis by (simp add: health_def)
next
  case (Stats now)
  with k show ?thesis by (simp add: stats_def)
qed

lemma run_keeps_key:
  "k \<in> fst ` set matches \<Longrightarrow> Unregister (Some (JStr k)) \<notin> set rs \<Longrightarrow> k \<in> fst ` set (run rt rs matches)"
proof (induction rs arbitrary: matches)
  case Nil
  then show ?case by simp
next
  case (Cons r rs)
  from Cons.prems have "r \<noteq> Unregister (Some (JStr k))" by auto
  with Cons.prems(1) have "k \<in> fst ` set (step rt r matches)" by (rule step_keeps_key)
  moreover from Cons.prems have "Unregister (Some (JStr k)) \<notin> set rs" by simp
  ultimately have "k \<in> fst ` set (run rt rs (step rt r matches))" by (rule Cons.IH)
  then show ?case by simp
qed

section \<open>Stale matches and removed matches\<close>

lemma list_members:
  assumes "v \<in> set (l_matches (fst (list_matches rt now matches)))"
  shows "\<exists>k m. (k, m) \<in> set matches \<and> active now m \<and> v = view rt now m"
proof -
  from assms have "v \<in> set (take 100 (map (view rt now) (filter (active now) (map snd matches))))"
    by (simp add: list_matches_eq)
  then have "v \<in> set (map (view rt now) (filter (active now) (map snd matches)))"
    by (rule in_set_takeD)
  then show ?thesis by fastforce
qed

lemma list_ids_are_keys:
  assumes "ids_ok matches" and "k \<in> v_id ` set (l_matches (fst (list_matches rt now matches)))"
  shows "k \<in> fst ` set matches"
proof -
  from assms(2) obtain v where v: "v \<in> set (l_matches (fst (list_matches rt now matches)))"
    and "k = v_id v" by auto
  from list_members [OF v] obtain k' m where km: "(k', m) \<in> set matches" and "v = view rt now m"
    by blast
  with \<open>k = v_id v\<close> have "k = id' m" by (simp add: view_def)
  with assms(1) km have "k = k'" by (auto simp: ids_ok_def)
  with km show ?thesis by force
qed

lemma inactive_not_listed:
  assumes wf: "wf_registry matches" and km: "(k, m) \<in> set matches" and st: "\<not> active now m"
  shows "k \<notin> v_id ` set (l_matches (fst (list_matches rt now matches)))"
proof
  assume "k \<in> v_id ` set (l_matches (fst (list_matches rt now matches)))"
  then obtain v where v: "v \<in> set (l_matches (fst (list_matches rt now matches)))"
    and kv: "k = v_id v" by auto
  from list_members [OF v] obtain k' m' where km': "(k', m') \<in> set matches"
    and act: "active now m'" and "v = view rt now m'" by blast
  with kv have "k = id' m'" by (simp add: view_def)
  with wf km' have "k' = k" by (auto simp: wf_registry_def ids_ok_def)
  from wf have d: "distinct (map fst matches)" by (simp add: wf_registry_def)
  from map_of_is_SomeI [OF d km] map_of_is_SomeI [OF d km'] \<open>k' = k\<close> have "m' = m" by simp
  with act st show False by simp
qed

lemma filter_delete_inactive:
  "\<forall>m. (k, m) \<in> set matches \<longrightarrow> \<not> P m \<Longrightarrow>
   filter P (map snd (AList.delete k matches)) = filter P (map snd matches)"
  by (induction matches) auto

lemma only_entry:
  assumes "wf_registry matches" "(k, m) \<in> set matches" "\<not> P m"
  shows "\<forall>m'. (k, m') \<in> set matches \<longrightarrow> \<not> P m'"
proof (intro allI impI)
  fix m' assume "(k, m') \<in> set matches"
  from assms(1) have d: "distinct (map fst matches)" by (simp add: wf_registry_def)
  from map_of_is_SomeI [OF d assms(2)] map_of_is_SomeI [OF d \<open>(k, m') \<in> set matches\<close>]
  have "m' = m" by simp
  with assms(3) show "\<not> P m'" by simp
qed

lemma health_active_members:
  assumes "m \<in> set (health_active clock matches)"
  shows "\<exists>i. clock i - lastHeartbeat m < 120000"
  using assms by (auto simp: health_active_def)

lemma filter_enumerate_snd:
  "map snd (filter (\<lambda>(i, m). P m) (enumerate n xs)) = filter P xs"
  by (induction xs arbitrary: n) auto

lemma health_active_uniform: "health_active (\<lambda>i. now) matches = filter (active now) (map snd matches)"
  unfolding health_active_def active_def by (rule filter_enumerate_snd)

lemma map_get_present:
  assumes "wf_registry matches" "(k, m) \<in> set matches"
  shows "map_get matches (Some (JStr k)) = Some (k, m)"
proof -
  from assms(1) have d: "distinct (map fst matches)" by (simp add: wf_registry_def)
  from map_of_is_SomeI [OF d assms(2)] show ?thesis by (simp add: map_get_def)
qed

text \<open>
  C4. In a store as the handlers build it, let a match be stored under key \<open>k\<close> with
  \<open>now - lastHeartbeat\<close> at least 120000. Then no view of the listing at \<open>now\<close> has id
  \<open>k\<close>, and the listing is the one of the store without that match; the match is not
  among the matches that stats counts as active, whose count is the one of the store
  without it; the same holds for health, whose filter reads the clock for each match,
  whenever no reading is earlier than \<open>now\<close>. List, stats and health leave the store as
  it is, unregister of \<open>k\<close> succeeds and removes the key, and after any run of requests
  without an unregister of \<open>k\<close> the key is still stored.
\<close>

theorem stale_match_hidden_not_purged:
  assumes "wf_registry matches" and "(k, m) \<in> set matches"
      and "120000 \<le> now - lastHeartbeat m"
  shows "k \<notin> v_id ` set (l_matches (fst (list_matches rt now matches)))
   \<and> l_matches (fst (list_matches rt now matches))
       = l_matches (fst (list_matches rt now (AList.delete k matches)))
   \<and> m \<notin> set (filter (active now) (map snd matches))
   \<and> activeMatches (fst (stats now matches)) = length (filter (active now) (map snd matches))
   \<and> activeMatches (fst (stats now matches))
       = activeMatches (fst (stats now (AList.delete k matches)))
   \<and> (\<forall>clock'. (\<forall>i. now \<le> clock' i) \<longrightarrow> m \<notin> set (health_active clock' matches))
   \<and> h_active (fst (health clock matches)) = length (health_active clock matches)
   \<and> h_active (fst (health (\<lambda>i. now) matches))
       = h_active (fst (health (\<lambda>i. now) (AList.delete k matches)))
   \<and> snd (list_matches rt now matches) = matches
   \<and> snd (stats now matches) = matches
   \<and> snd (health clock matches) = matches
   \<and> unregister (Some (JStr k)) matches = (Inr (), AList.delete k matches)
   \<and> k \<notin> fst ` set (AList.delete k matches)
   \<and> (\<forall>rs. Unregister (Some (JStr k)) \<notin> set rs \<longrightarrow> k \<in> fst ` set (run rt rs matches))"
proof -
  from assms(3) have stale: "\<not> active now m" by (simp add: active_def)
  note only = only_entry [of matches k m "active now", OF assms(1,2) stale]
  note del = filter_delete_inactive [OF only]
  have 1: "k \<notin> v_id ` set (l_matches (fst (list_matches rt now matches)))"
    using assms(1,2) stale by (rule inactive_not_listed)
  have 2: "l_matches (fst (list_matches rt now matches))
             = l_matches (fst (list_matches rt now (AList.delete k matches)))"
    by (simp add: list_matches_eq del)
  have 3: "m \<notin> set (filter (active now) (map snd matches))"
    using stale by simp
  have 4: "activeMatches (fst (stats now matches)) = length (filter (active now) (map snd matches))"
    by (simp add: stats_def)
  have 5: "activeMatches (fst (stats now matches))
             = activeMatches (fst (stats now (AList.delete k matches)))"
    by (simp add: stats_def del)
  have 6: "\<forall>clock'. (\<forall>i. now \<le> clock' i) \<longrightarrow> m \<notin> set (health_active clock' matches)"
  proof (intro allI impI notI)
    fix clock' assume mono: "\<forall>i. now \<le> clock' i" and "m \<in> set (health_active clock' matches)"
    from health_active_members [OF this(2)] obtain i where "clock' i - lastHeartbeat m < 120000"
      by blast
    with mono [rule_format, of i] assms(3) show False by simp
  qed
  have 7: "h_active (fst (health clock matches)) = length (health_active clock matches)"
    by (simp add: health_def)
  have 8: "h_active (fst (health (\<lambda>i. now) matches))
             = h_active (fst (health (\<lambda>i. now) (AList.delete k matches)))"
    by (simp add: health_def health_active_uniform del)
  have 9: "snd (list_matches rt now matches) = matches" "snd (stats now matches) = matches"
    "snd (health clock matches) = matches"
    by (simp_all add: list_matches_eq stats_def health_def)
  have 10: "unregister (Some (JStr k)) matches = (Inr (), AList.delete k matches)"
    using map_get_present [OF assms(1,2)] by (rule unregister_Some)
  have 11: "k \<notin> fst ` set (AList.delete k matches)"
    by (rule delete_notin_dom)
  have 12: "\<forall>rs. Unregister (Some (JStr k)) \<notin> set rs \<longrightarrow> k \<in> fst ` set (run rt rs matches)"
  proof (intro allI impI)
    fix rs assume "Unregister (Some (JStr k)) \<notin> set rs"
    moreover from assms(2) have "k \<in> fst ` set matches" by force
    ultimately show "k \<in> fst ` set (run rt rs matches)" by (intro run_keeps_key)
  qed
  from 1 2 3 4 5 6 7 8 9 10 11 12 show ?thesis by (intro conjI)
qed

theorem stale_match_hidden_not_purged_witness:
  "map v_id (l_matches (fst (list_matches example_runtime 130000
       [(''a'', example_match ''a'' 0 0), (''b'', example_match ''b'' 100000 100000)]))) = [''b'']
   \<and> activeMatches (fst (stats 130000
       [(''a'', example_match ''a'' 0 0), (''b'', example_match ''b'' 100000 100000)])) = 1
   \<and> h_active (fst (health (\<lambda>i. 130000 + int i)
       [(''a'', example_match ''a'' 0 0), (''b'', example_match ''b'' 100000 100000)])) = 1
   \<and> unregister (Some (JStr ''a''))
       [(''a'', example_match ''a'' 0 0), (''b'', example_match ''b'' 100000 100000)]
       = (Inr (), [(''b'', example_match ''b'' 100000 100000)])"
  using stale_match_hidden_not_purged
          [where matches = "[(''a'', example_match ''a'' 0 0),
                             (''b'', example_match ''b'' 100000 100000)]"
             and k = "''a''" and m = "example_match ''a'' 0 0" and now = 130000
             and rt = example_runtime and clock = "\<lambda>i. 130000 + int i"]
  by (simp add: wf_registry_def ids_ok_def example_match_def list_matches_ids active_def
      stats_def health_def health_active_def unregister_def map_get_def)

lemma fst_unregister_NotFound:
  "(fst (unregister idv matches) = Inl NotFoundError) = (map_get matches idv = None)"
  by (cases "map_get matches idv") (auto simp: unregister_def)

lemma map_get_absent:
  assumes "map_key idv = Some k" "k \<notin> fst ` set matches"
  shows "map_get matches idv = None"
  using assms by (simp add: map_get_None) (cases idv rule: map_key.cases, auto)

text \<open>
  C8. In a store whose matches carry their keys as ids: when unregister finds a match
  under the given id it succeeds and deletes the key, and after any later run of
  requests in which no register call generates that identifier again, the key is not
  stored, no view of a listing has that id, and heartbeat and unregister of that id
  fail with \<open>NotFoundError\<close> and leave the store as it is. When no match is stored under
  the given id, heartbeat and unregister fail with \<open>NotFoundError\<close> and change nothing,
  the first time and when repeated. Unregister fails with \<open>NotFoundError\<close> exactly when
  no match is stored under the id.
\<close>

theorem unregister_removes_for_good:
  assumes "ids_ok matches"
  shows "(\<forall>k m. map_get matches idv = Some (k, m) \<longrightarrow>
            unregister idv matches = (Inr (), AList.delete k matches)
            \<and> (\<forall>rs t. Some k \<notin> generated_id ` set rs \<longrightarrow>
                 k \<notin> fst ` set (run rt rs (AList.delete k matches))
                 \<and> k \<notin> v_id ` set (l_matches (fst (list_matches rt t (run rt rs (AList.delete k matches)))))
                 \<and> heartbeat t idv (run rt rs (AList.delete k matches))
                     = (Inl NotFoundError, run rt rs (AList.delete k matches))
                 \<and> unregister idv (run rt rs (AList.delete k matches))
                     = (Inl NotFoundError, run rt rs (AList.delete k matches))))
       \<and> (map_get matches idv = None \<longrightarrow>
            heartbeat now idv matches = (Inl NotFoundError, matches)
            \<and> unregister idv matches = (Inl NotFoundError, matches)
            \<and> heartbeat now' idv (snd (heartbeat now idv matches)) = (Inl NotFoundError, matches)
            \<and> unregister idv (snd (unregister idv matches)) = (Inl NotFoundError, matches))
       \<and> ((fst (unregister idv matches) = Inl NotFoundError) = (map_get matches idv = None))"
proof (intro conjI allI impI)
  fix k m assume g: "map_get matches idv = Some (k, m)"
  show "unregister idv matches = (Inr (), AList.delete k matches)"
    using g by (rule unregister_Some)
  fix rs t assume fresh: "Some k \<notin> generated_id ` set rs"
  let ?st = "run rt rs (AList.delete k matches)"
  have "k \<notin> fst ` set (AList.delete k matches)" by (rule delete_notin_dom)
  then show absent: "k \<notin> fst ` set ?st" using fresh by (rule run_absent)
  have "ids_ok ?st" using assms by (intro run_ids_ok ids_ok_delete)
  then show "k \<notin> v_id ` set (l_matches (fst (list_matches rt t ?st)))"
    using absent list_ids_are_keys by blast
  from g have "map_key idv = Some k" by (simp add: map_get_Some)
  then have none: "map_get ?st idv = None" using absent by (rule map_get_absent)
  then show "heartbeat t idv ?st = (Inl NotFoundError, ?st)" by (rule heartbeat_None)
  from none show "unregister idv ?st = (Inl NotFoundError, ?st)" by (rule unregister_None)
next
  assume n: "map_get matches idv = None"
  then show "heartbeat now idv matches = (Inl NotFoundError, matches)" by (rule heartbeat_None)
  from n show "unregister idv matches = (Inl NotFoundError, matches)" by (rule unregister_None)
  from n show "heartbeat now' idv (snd (heartbeat now idv matches)) = (Inl NotFoundError, matches)"
    by (simp add: heartbeat_None)
  from n show "unregister idv (snd (unregister idv matches)) = (Inl NotFoundError, matches)"
    by (simp add: unregister_None)
next
  show "(fst (unregister idv matches) = Inl NotFoundError) = (map_get matches idv = None)"
    by (rule fst_unregister_NotFound)
qed

theorem unregister_removes_for_good_witness:
  "unregister (Some (JStr ''a'')) [(''a'', example_match ''a'' 0 0), (''b'', example_match ''b'' 5 5)]
     = (Inr (), [(''b'', example_match ''b'' 5 5)])
   \<and> run example_runtime [Register ''c'' 10 10 example_body, Heartbeat 20 (Some (JStr ''b''))]
        [(''b'', example_match ''b'' 5 5)]
     = [(''b'', example_match ''b'' 5 20), (''c'', example_match ''c'' 10 10)]
   \<and> map v_id (l_matches (fst (list_matches example_runtime 30
        [(''b'', example_match ''b'' 5 20), (''c'', example_match ''c'' 10 10)]))) = [''b'', ''c'']
   \<and> heartbeat 30 (Some (JStr ''a''))
        [(''b'', example_match ''b'' 5 20), (''c'', example_match ''c'' 10 10)]
     = (Inl NotFoundError, [(''b'', example_match ''b'' 5 20), (''c'', example_match ''c'' 10 10)])
   \<and> unregister (Some (JStr ''z'')) [(''b'', example_match ''b'' 5 5)]
     = (Inl NotFoundError, [(''b'', example_match ''b'' 5 5)])"
  using unregister_removes_for_good
          [where matches = "[(''a'', example_match ''a'' 0 0), (''b'', example_match ''b'' 5 5)]"
             and idv = "Some (JStr ''a'')" and rt = example_runtime and now = 30 and now' = 30]
        unregister_removes_for_good
          [where matches = "[(''b'', example_match ''b'' 5 5)]" and idv = "Some (JStr ''z'')"
             and rt = example_runtime and now = 30 and now' = 30]
  by (simp add: ids_ok_def register_example heartbeat_def unregister_def map_get_def
      list_matches_ids active_def example_match_def)

section \<open>Register: what is checked and what is stored\<close>



lemma port_field_falsy: "\<not> truthy v \<Longrightarrow> port_field v = Inl ValidationError"
  by (cases v) auto

lemma text_field_nullish:
  "nullish_or_string v \<Longrightarrow> text_field v = Inl ValidationError \<or> (\<exists>s. text_field v = Inr s)"
  by (cases v rule: text_field.cases) auto

lemma check_fields_falsy_port:
  assumes "\<not> truthy (b_proxyPort body)"
  shows "\<exists>e. check_fields body = Inl e"
  by (simp add: check_fields_def port_field_falsy [OF assms] split: sum.splits)

lemma register_falsy_port:
  assumes "\<not> truthy (b_proxyPort body)"
  shows "\<exists>e. register rt uuid t1 t2 body matches = (Inl e, matches)"
  using check_fields_falsy_port [OF assms] register_fail by blast

lemma check_fields_required:
  assumes "nullish_or_string (b_hostName body)" and "nullish_or_string (b_proxyAddress body)"
      and "blank (b_hostName body) \<or> blank (b_proxyAddress body)
           \<or> \<not> truthy (b_proxyPort body) \<or> blank (b_map body)"
  shows "check_fields body = Inl ValidationError"
proof -
  from assms(1) text_field_nullish have h: "text_field (b_hostName body) = Inl ValidationError
      \<or> (\<exists>s. text_field (b_hostName body) = Inr s)" by blast
  from assms(2) text_field_nullish have p: "text_field (b_proxyAddress body) = Inl ValidationError
      \<or> (\<exists>s. text_field (b_proxyAddress body) = Inr s)" by blast
  show ?thesis
    using assms(3)
  proof (elim disjE)
    assume "blank (b_hostName body)"
    then show ?thesis by (simp add: check_fields_def text_field_blank)
  next
    assume "blank (b_proxyAddress body)"
    with h show ?thesis by (auto simp: check_fields_def text_field_blank)
  next
    assume "\<not> truthy (b_proxyPort body)"
    with h p show ?thesis by (auto simp: check_fields_def port_field_falsy)
  next
    assume "blank (b_map body)"
    then have m: "text_field (b_map body) = Inl ValidationError" by (rule text_field_blank)
    show ?thesis
    proof (cases "port_field (b_proxyPort body)")
      case (Inl e)
      then have "e = ValidationError" by (simp add: port_field_Inl)
      with Inl h p show ?thesis by (auto simp: check_fields_def)
    next
      case (Inr q)
      with h p m show ?thesis by (auto simp: check_fields_def)
    qed
  qed
qed


lemma parseInt_no_digit: "snd (snd (parse_prefix (to_string rt v))) = [] \<Longrightarrow> parseInt rt v = NaN"
  by (cases "parse_prefix (to_string rt v)") (simp add: parseInt_def parseInt_string_def)

lemma parseInt_abc: "parseInt rt (JStr ''abc'') = NaN"
  by (simp add: parseInt_eval)

lemma parseInt_spaces: "parseInt rt (JStr ''  '') = NaN"
  by (simp add: parseInt_eval)

lemma trim_spaces: "trim ''  '' = []"
  by (simp add: trim_eval)




text \<open>
  C2 as stated fails: a port that is present and not coercible to an integer, here the
  string \<open>abc\<close>, passes the check of line 45; the call succeeds and the stored
  \<open>proxyPort\<close> is \<open>NaN\<close>.
\<close>

theorem register_accepts_non_numeric_port_counterexample:
  "fst (register example_runtime ''u'' 0 0 (example_body\<lparr>b_proxyPort := Some (JStr ''abc'')\<rparr>) [])
     = Inr \<lparr> r_id = ''u'', r_proxyUrl = ''10.0.0.5:abc'' \<rparr>
   \<and> map (proxyPort \<circ> snd)
        (snd (register example_runtime ''u'' 0 0
                (example_body\<lparr>b_proxyPort := Some (JStr ''abc'')\<rparr>) [])) = [NaN]"
  by (simp add: register_def check_fields_def example_body_def trim_examples parseInt_abc)

text \<open>
  C2, as the code has it. When \<open>proxyPort\<close> is absent or falsy (\<open>null\<close>, \<open>false\<close>, \<open>0\<close>,
  the empty string), the call fails and the store is unchanged; the error is
  \<open>ValidationError\<close> when \<open>hostName\<close> and \<open>proxyAddress\<close> are each absent, \<open>null\<close> or a
  string. A port that is present and truthy passes the check whether or not it is
  coercible to an integer: when \<open>hostName\<close>, \<open>proxyAddress\<close> and \<open>map\<close> are strings that are
  not blank and the conversion of the port to a string does not throw, the call
  succeeds. On every successful call the stored \<open>proxyPort\<close> is what \<open>parseInt\<close> returns
  for the port, and that is \<open>NaN\<close> when the string form of the port has no digit after
  leading white space, an optional sign and an optional \<open>0x\<close>.
\<close>

theorem register_port_check:
  "(\<not> truthy (b_proxyPort body) \<longrightarrow>
       (\<exists>e. fst (register rt uuid t1 t2 body matches) = Inl e)
       \<and> snd (register rt uuid t1 t2 body matches) = matches)
   \<and> (\<not> truthy (b_proxyPort body) \<and> nullish_or_string (b_hostName body)
        \<and> nullish_or_string (b_proxyAddress body) \<longrightarrow>
       register rt uuid t1 t2 body matches = (Inl ValidationError, matches))
   \<and> (\<forall>h a p mp.
        b_hostName body = Some (JStr h) \<and> trim h \<noteq> [] \<and>
        b_proxyAddress body = Some (JStr a) \<and> trim a \<noteq> [] \<and>
        b_proxyPort body = Some p \<and> truthy (Some p) \<and> \<not> to_primitive_throws p \<and>
        b_map body = Some (JStr mp) \<and> trim mp \<noteq> [] \<longrightarrow>
        (\<exists>r m. fst (register rt uuid t1 t2 body matches) = Inr r
           \<and> map_of (snd (register rt uuid t1 t2 body matches)) uuid = Some m
           \<and> proxyPort m = parseInt rt p))
   \<and> (\<forall>r. fst (register rt uuid t1 t2 body matches) = Inr r \<longrightarrow>
       (\<exists>p m. b_proxyPort body = Some p \<and> truthy (Some p) \<and> \<not> to_primitive_throws p
          \<and> map_of (snd (register rt uuid t1 t2 body matches)) uuid = Some m
          \<and> proxyPort m = parseInt rt p))
   \<and> (\<forall>v. snd (snd (parse_prefix (to_string rt v))) = [] \<longrightarrow> parseInt rt v = NaN)"
proof (intro conjI allI impI)
  assume f: "\<not> truthy (b_proxyPort body)"
  from register_falsy_port [OF f] obtain e where
    "register rt uuid t1 t2 body matches = (Inl e, matches)" by blast
  then show "\<exists>e. fst (register rt uuid t1 t2 body matches) = Inl e"
    and "snd (register rt uuid t1 t2 body matches) = matches" by simp_all
next
  assume a: "\<not> truthy (b_proxyPort body) \<and> nullish_or_string (b_hostName body)
        \<and> nullish_or_string (b_proxyAddress body)"
  then have "check_fields body = Inl ValidationError"
    by (intro check_fields_required) simp_all
  then show "register rt uuid t1 t2 body matches = (Inl ValidationError, matches)"
    by (rule register_fail)
next
  fix h a p mp
  assume ok: "b_hostName body = Some (JStr h) \<and> trim h \<noteq> [] \<and>
        b_proxyAddress body = Some (JStr a) \<and> trim a \<noteq> [] \<and>
        b_proxyPort body = Some p \<and> truthy (Some p) \<and> \<not> to_primitive_throws p \<and>
        b_map body = Some (JStr mp) \<and> trim mp \<noteq> []"
  then have c: "check_fields body = Inr (h, a, p, mp)" by (simp add: check_fields_Inr)
  from ok have nt: "\<not> to_primitive_throws p" by simp
  show "\<exists>r m. fst (register rt uuid t1 t2 body matches) = Inr r
           \<and> map_of (snd (register rt uuid t1 t2 body matches)) uuid = Some m
           \<and> proxyPort m = parseInt rt p"
    by (simp add: register_pass [OF c nt] update_conv')
next
  fix r assume "fst (register rt uuid t1 t2 body matches) = Inr r"
  from register_Inr [OF this] obtain h a p mp where
    "b_proxyPort body = Some p" "truthy (Some p)" "\<not> to_primitive_throws p"
    and "register rt uuid t1 t2 body matches =
          (Inr \<lparr> r_id = uuid, r_proxyUrl = a @ '':'' @ to_string rt p \<rparr>,
           AList.update uuid
             \<lparr> id' = uuid, hostName = trim h, proxyAddress = trim a, proxyPort = parseInt rt p,
               map' = trim mp,
               maxPlayers = (case b_maxPlayers body of None \<Rightarrow> JNum (Fin 8) | Some v \<Rightarrow> v),
               playersConnected = 0, createdAt = t1, lastHeartbeat = t2 \<rparr> matches)"
    by blast
  then show "\<exists>p m. b_proxyPort body = Some p \<and> truthy (Some p) \<and> \<not> to_primitive_throws p
          \<and> map_of (snd (register rt uuid t1 t2 body matches)) uuid = Some m
          \<and> proxyPort m = parseInt rt p"
    by (simp add: update_conv')
next
  fix v assume "snd (snd (parse_prefix (to_string rt v))) = []"
  then show "parseInt rt v = NaN" by (rule parseInt_no_digit)
qed

theorem register_port_check_witness:
  "register example_runtime ''u'' 0 0 (example_body\<lparr>b_proxyPort := Some (JNum (Fin 0))\<rparr>) []
     = (Inl ValidationError, [])
   \<and> register example_runtime ''u'' 0 0 (example_body\<lparr>b_proxyPort := None\<rparr>) []
     = (Inl ValidationError, [])
   \<and> map (proxyPort \<circ> snd) (snd (register example_runtime ''u'' 0 0 example_body []))
     = [Fin 7777]
   \<and> parseInt example_runtime (JStr ''0x'') = NaN"
proof -
  note falsy =
    register_port_check
      [where body = "example_body\<lparr>b_proxyPort := Some (JNum (Fin 0))\<rparr>"
         and rt = example_runtime and uuid = "''u''" and ?t1.0 = 0 and ?t2.0 = 0
         and matches = "[]", THEN conjunct2, THEN conjunct1]
  note absent =
    register_port_check
      [where body = "example_body\<lparr>b_proxyPort := None\<rparr>"
         and rt = example_runtime and uuid = "''u''" and ?t1.0 = 0 and ?t2.0 = 0
         and matches = "[]", THEN conjunct2, THEN conjunct1]
  note stored =
    register_port_check
      [where body = example_body
         and rt = example_runtime and uuid = "''u''" and ?t1.0 = 0 and ?t2.0 = 0
         and matches = "[]", THEN conjunct2, THEN conjunct2, THEN conjunct2]
  have 1: "register example_runtime ''u'' 0 0
             (example_body\<lparr>b_proxyPort := Some (JNum (Fin 0))\<rparr>) [] = (Inl ValidationError, [])"
    using falsy by (simp add: example_body_def)
  have 2: "register example_runtime ''u'' 0 0 (example_body\<lparr>b_proxyPort := None\<rparr>) []
             = (Inl ValidationError, [])"
    using absent by (simp add: example_body_def)
  from stored have s1: "\<forall>r. fst (register example_runtime ''u'' 0 0 example_body []) = Inr r \<longrightarrow>
       (\<exists>p m. b_proxyPort example_body = Some p \<and> truthy (Some p) \<and> \<not> to_primitive_throws p
          \<and> map_of (snd (register example_runtime ''u'' 0 0 example_body [])) ''u'' = Some m
          \<and> proxyPort m = parseInt example_runtime p)"
    by (rule conjunct1)
  from stored have s2: "\<forall>v. snd (snd (parse_prefix (to_string example_runtime v))) = []
       \<longrightarrow> parseInt example_runtime v = NaN"
    by (rule conjunct2)
  from s1 have "\<exists>p m. b_proxyPort example_body = Some p \<and> truthy (Some p)
          \<and> \<not> to_primitive_throws p
          \<and> map_of (snd (register example_runtime ''u'' 0 0 example_body [])) ''u'' = Some m
          \<and> proxyPort m = parseInt example_runtime p"
    by (simp add: register_example)
  then have 3: "map (proxyPort \<circ> snd) (snd (register example_runtime ''u'' 0 0 example_body []))
                  = [Fin 7777]"
    by (simp add: register_example example_match_def)
  have "snd (snd (parse_prefix (to_string example_runtime (JStr ''0x'')))) = []"
    by (simp add: parse_prefix_def trim_start_def is_whitespace_def Let_def)
  with s2 have 4: "parseInt example_runtime (JStr ''0x'') = NaN"
    by blast
  from 1 2 3 4 show ?thesis by (intro conjI)
qed

text \<open>
  C5 as stated fails twice. A port that is empty after trimming white space, here two
  spaces, is truthy and passes the check of line 45: the call succeeds and the store
  grows from 0 to 1 match. And when \<open>hostName\<close> is a number, \<open>hostName?.trim()\<close> throws a
  \<open>TypeError\<close> before the absent \<open>map\<close> is looked at, so that call is not rejected with
  \<open>ValidationError\<close>.
\<close>

theorem register_blank_port_counterexample:
  "trim ''  '' = []
   \<and> fst (register example_runtime ''u'' 0 0 (example_body\<lparr>b_proxyPort := Some (JStr ''  '')\<rparr>) [])
       = Inr \<lparr> r_id = ''u'', r_proxyUrl = ''10.0.0.5:  '' \<rparr>
   \<and> length (snd (register example_runtime ''u'' 0 0
                    (example_body\<lparr>b_proxyPort := Some (JStr ''  '')\<rparr>) [])) = 1
   \<and> register example_runtime ''u'' 0 0
         (example_body\<lparr>b_hostName := Some (JNum (Fin 5)), b_map := None\<rparr>) []
       = (Inl TypeError, [])"
  by (simp add: register_def check_fields_def example_body_def trim_examples trim_spaces
      parseInt_spaces)

text \<open>
  C5, as the code has it. For a register call whose \<open>hostName\<close> and \<open>proxyAddress\<close> are
  each absent, \<open>null\<close> or a string: if \<open>hostName\<close>, \<open>proxyAddress\<close> or \<open>map\<close> is absent,
  \<open>null\<close> or empty after trimming white space, or \<open>proxyPort\<close> is absent or falsy, the
  call is rejected with \<open>ValidationError\<close> and the store is unchanged, so its size is.
\<close>

theorem register_required_fields:
  assumes "nullish_or_string (b_hostName body)" and "nullish_or_string (b_proxyAddress body)"
      and "blank (b_hostName body) \<or> blank (b_proxyAddress body)
           \<or> \<not> truthy (b_proxyPort body) \<or> blank (b_map body)"
  shows "register rt uuid t1 t2 body matches = (Inl ValidationError, matches)
         \<and> length (snd (register rt uuid t1 t2 body matches)) = length matches"
proof -
  from assms have "check_fields body = Inl ValidationError"
    by (rule check_fields_required)
  then have "register rt uuid t1 t2 body matches = (Inl ValidationError, matches)"
    by (rule register_fail)
  then show ?thesis by simp
qed

theorem register_required_fields_witness:
  "register example_runtime ''u'' 0 0 (example_body\<lparr>b_hostName := Some (JStr ''  '')\<rparr>) []
     = (Inl ValidationError, [])
   \<and> register example_runtime ''u'' 0 0 (example_body\<lparr>b_map := None\<rparr>)
         [(''a'', example_match ''a'' 0 0)]
       = (Inl ValidationError, [(''a'', example_match ''a'' 0 0)])"
  using register_required_fields
          [where body = "example_body\<lparr>b_hostName := Some (JStr ''  '')\<rparr>"
             and rt = example_runtime and uuid = "''u''" and ?t1.0 = 0 and ?t2.0 = 0
             and matches = "[]"]
        register_required_fields
          [where body = "example_body\<lparr>b_map := None\<rparr>"
             and rt = example_runtime and uuid = "''u''" and ?t1.0 = 0 and ?t2.0 = 0
             and matches = "[(''a'', example_match ''a'' 0 0)]"]
  by (simp add: example_body_def trim_spaces)

lemma list_matches_maxPlayers:
  "map v_maxPlayers (l_matches (fst (list_matches rt now matches)))
     = take 100 (map maxPlayers (filter (\<lambda>m. now - lastHeartbeat m < 120000) (map snd matches)))"
  by (simp add: list_matches_eq take_map view_def comp_def active_eq)

lemma check_fields_maxPlayers: "check_fields (body\<lparr>b_maxPlayers := v\<rparr>) = check_fields body"
  by (simp add: check_fields_def split: sum.splits)

text \<open>
  C10 as stated fails: a call can pass the required-field check and store nothing. A
  \<open>proxyPort\<close> that is an object with a property of its own named \<open>toString\<close> is truthy,
  so the body passes the four tests of line 45; \<open>parseInt(proxyPort)\<close> of line 56 then
  throws a \<open>TypeError\<close>, and the \<open>maxPlayers\<close> of the body, here 4, is stored nowhere.
\<close>

theorem register_throwing_port_counterexample:
  "check_fields (example_body\<lparr>b_proxyPort := Some (JObj [(''toString'', JNum (Fin 1))]),
                              b_maxPlayers := Some (JNum (Fin 4))\<rparr>)
     = Inr (''Alice'', ''10.0.0.5'', JObj [(''toString'', JNum (Fin 1))], ''de_dust2'')
   \<and> register example_runtime ''u'' 0 0
        (example_body\<lparr>b_proxyPort := Some (JObj [(''toString'', JNum (Fin 1))]),
                       b_maxPlayers := Some (JNum (Fin 4))\<rparr>) []
     = (Inl TypeError, [])"
  by (simp add: register_def check_fields_def example_body_def trim_examples)

text \<open>
  C10, as the code has it. Register performs no validation on \<open>maxPlayers\<close>: neither
  the required-field check nor the response of the call depends on it. For every call
  that succeeds, that is, passes the required-field check and has a \<open>proxyPort\<close> whose
  conversion to a string does not throw, the stored \<open>maxPlayers\<close> is the value of the
  body, of whatever JSON type, or 8 when the property is absent; and a listing shows for
  each match the stored \<open>maxPlayers\<close>.
\<close>

theorem maxPlayers_stored_verbatim:
  "check_fields (body\<lparr>b_maxPlayers := v\<rparr>) = check_fields body
   \<and> fst (register rt uuid t1 t2 (body\<lparr>b_maxPlayers := v\<rparr>) matches)
       = fst (register rt uuid t1 t2 body matches)
   \<and> (\<forall>h a p mp. check_fields body = Inr (h, a, p, mp) \<and> \<not> to_primitive_throws p \<longrightarrow>
        (\<exists>r m. fst (register rt uuid t1 t2 body matches) = Inr r
           \<and> map_of (snd (register rt uuid t1 t2 body matches)) uuid = Some m
           \<and> maxPlayers m = (case b_maxPlayers body of None \<Rightarrow> JNum (Fin 8) | Some x \<Rightarrow> x)))
   \<and> (\<forall>r. fst (register rt uuid t1 t2 body matches) = Inr r \<longrightarrow>
        (\<exists>h a p mp m. check_fields body = Inr (h, a, p, mp) \<and> \<not> to_primitive_throws p
           \<and> map_of (snd (register rt uuid t1 t2 body matches)) uuid = Some m
           \<and> maxPlayers m = (case b_maxPlayers body of None \<Rightarrow> JNum (Fin 8) | Some x \<Rightarrow> x)))
   \<and> v_maxPlayers (view rt now m) = maxPlayers m
   \<and> map v_maxPlayers (l_matches (fst (list_matches rt now matches)))
       = take 100 (map maxPlayers (filter (\<lambda>m. now - lastHeartbeat m < 120000) (map snd matches)))"
proof (intro conjI allI impI)
  show "check_fields (body\<lparr>b_maxPlayers := v\<rparr>) = check_fields body"
    by (rule check_fields_maxPlayers)
  show "fst (register rt uuid t1 t2 (body\<lparr>b_maxPlayers := v\<rparr>) matches)
          = fst (register rt uuid t1 t2 body matches)"
    by (simp add: register_def check_fields_maxPlayers Let_def split: sum.splits)
  show "v_maxPlayers (view rt now m) = maxPlayers m" by (simp add: view_def)
  show "map v_maxPlayers (l_matches (fst (list_matches rt now matches)))
          = take 100 (map maxPlayers (filter (\<lambda>m. now - lastHeartbeat m < 120000) (map snd matches)))"
    by (rule list_matches_maxPlayers)
next
  fix h a p mp
  assume "check_fields body = Inr (h, a, p, mp) \<and> \<not> to_primitive_throws p"
  then have c: "check_fields body = Inr (h, a, p, mp)" and nt: "\<not> to_primitive_throws p"
    by simp_all
  show "\<exists>r m. fst (register rt uuid t1 t2 body matches) = Inr r
           \<and> map_of (snd (register rt uuid t1 t2 body matches)) uuid = Some m
           \<and> maxPlayers m = (case b_maxPlayers body of None \<Rightarrow> JNum (Fin 8) | Some x \<Rightarrow> x)"
    by (simp add: register_pass [OF c nt] update_conv')
next
  fix r assume ok: "fst (register rt uuid t1 t2 body matches) = Inr r"
  from register_Inr_check [OF ok] obtain h a p mp where
    c: "check_fields body = Inr (h, a, p, mp)" and nt: "\<not> to_primitive_throws p"
    by blast
  have "map_of (snd (register rt uuid t1 t2 body matches)) uuid
          = Some \<lparr> id' = uuid, hostName = trim h, proxyAddress = trim a, proxyPort = parseInt rt p,
                   map' = trim mp,
                   maxPlayers = (case b_maxPlayers body of None \<Rightarrow> JNum (Fin 8) | Some v \<Rightarrow> v),
                   playersConnected = 0, createdAt = t1, lastHeartbeat = t2 \<rparr>"
    by (simp add: register_pass [OF c nt] update_conv')
  with c nt show "\<exists>h a p mp m. check_fields body = Inr (h, a, p, mp) \<and> \<not> to_primitive_throws p
           \<and> map_of (snd (register rt uuid t1 t2 body matches)) uuid = Some m
           \<and> maxPlayers m = (case b_maxPlayers body of None \<Rightarrow> JNum (Fin 8) | Some x \<Rightarrow> x)"
    by auto
qed

theorem maxPlayers_stored_verbatim_witness:
  "map (maxPlayers \<circ> snd)
     (snd (register example_runtime ''u'' 0 0
             (example_body\<lparr>b_maxPlayers := Some (JStr ''lots'')\<rparr>) [])) = [JStr ''lots'']
   \<and> map (maxPlayers \<circ> snd)
     (snd (register example_runtime ''u'' 0 0
             (example_body\<lparr>b_maxPlayers := Some (JNum (Fin (- 3)))\<rparr>) [])) = [JNum (Fin (- 3))]
   \<and> map (maxPlayers \<circ> snd)
     (snd (register example_runtime ''u'' 0 0
             (example_body\<lparr>b_maxPlayers := Some (JNum (Fin (25 / 2)))\<rparr>) []))
       = [JNum (Fin (25 / 2))]
   \<and> map (maxPlayers \<circ> snd)
     (snd (register example_runtime ''u'' 0 0
             (example_body\<lparr>b_maxPlayers := Some JNull\<rparr>) [])) = [JNull]
   \<and> map (maxPlayers \<circ> snd) (snd (register example_runtime ''u'' 0 0 example_body []))
       = [JNum (Fin 8)]
   \<and> map v_maxPlayers (l_matches (fst (list_matches example_runtime 10
       (snd (register example_runtime ''u'' 0 0
               (example_body\<lparr>b_maxPlayers := Some (JNum (Fin (25 / 2)))\<rparr>) [])))))
       = [JNum (Fin (25 / 2))]"
  using maxPlayers_stored_verbatim
          [where rt = example_runtime and uuid = "''u''" and ?t1.0 = 0 and ?t2.0 = 0
             and body = example_body and v = "Some (JNum (Fin (25 / 2)))" and matches = "[]"
             and now = 10 and m = "example_match ''u'' 0 0"]
  by (simp add: register_def check_fields_def example_body_def trim_examples parseInt_7777
      list_matches_maxPlayers del: to_string.simps)

end
